theory Spec2Isabelle
  imports Complex_Main
begin

section \<open>The snow effect engine (src/core/SnowEffect.js)\<close>

text \<open>
  The engine is a JavaScript class whose methods mutate the fields of one object.  The
  embedding passes that object explicitly: a method takes the object's state and returns
  the state it leaves behind.  Conventions used throughout:

  \<^item> JavaScript numbers are modelled as mathematical reals (\<open>real\<close>); pixel dimensions of
    the window and of the canvas are naturals, as the DOM declares them (unsigned long).
    The wind computation of \<open>_animate\<close> is modelled in binary64 arithmetic: every
    operation there is followed by the rounding \<open>binary64\<close> defined below, because a
    property of the gust depends on it.  Elsewhere rounding is left out.
  \<^item> \<open>Math.random()\<close> is an input: a value of type \<open>rand\<close> is the sequence of results
    the next calls will return, \<open>r 0\<close> first.  A function that calls \<open>Math.random()\<close>
    \<open>k\<close> times reads \<open>r 0 \<dots> r (k - 1)\<close> in call order and hands \<open>drop_rand k r\<close> on.
    \<open>Math_random_range r\<close> states what the language guarantees of every result.
  \<^item> What the browser supplies during a call (window size, clock, the handles returned by
    \<open>requestAnimationFrame\<close> and \<open>setTimeout\<close>, \<open>document.hidden\<close>) is a \<open>host\<close> record.
    The two consecutive reads of \<open>performance.now()\<close> in \<open>start()\<close> get the same value
    \<open>now h\<close>.
  \<^item> A thrown exception is a value: \<open>Inl (e, s)\<close> says that the call threw \<open>e\<close> and left
    the object in state \<open>s\<close>; \<open>Inr s\<close> says that it returned.
  \<^item> Drawing on the 2D context changes no field of the object and is left out.
  \<^item> Record fields of the two particle shapes carry a prefix (\<open>p_\<close> for drift particles,
    \<open>s_\<close> for special particles), since both shapes have fields named x, y, size, ...
\<close>

subsection \<open>Host inputs\<close>

type_synonym rand = "nat \<Rightarrow> real"

definition drop_rand :: "nat \<Rightarrow> rand \<Rightarrow> rand" where
  "drop_rand k r = (\<lambda>n. r (n + k))"

definition Math_random_range :: "rand \<Rightarrow> bool" where
  "Math_random_range r = (\<forall>n. 0 \<le> r n \<and> r n < 1)"

record host =
  innerWidth :: nat
  innerHeight :: nat
  now :: real
  frameHandle :: nat
  timerHandle :: nat
  hidden :: bool

datatype error = TypeError

subsection \<open>Data\<close>

record config =
  count :: nat
  speedRange :: "real \<times> real"
  sizeRange :: "real \<times> real"
  trees :: nat
  wreaths :: nat

definition INTENSITY_CONFIG :: "string \<Rightarrow> config option" where
  "INTENSITY_CONFIG tier =
    (if tier = ''light'' then
       Some \<lparr>count = 50, speedRange = (0.5, 1.5), sizeRange = (1, 3), trees = 5, wreaths = 3\<rparr>
     else if tier = ''medium'' then
       Some \<lparr>count = 150, speedRange = (0.8, 2.5), sizeRange = (1, 4), trees = 10, wreaths = 6\<rparr>
     else if tier = ''heavy'' then
       Some \<lparr>count = 300, speedRange = (1.0, 3.5), sizeRange = (1, 5), trees = 20, wreaths = 10\<rparr>
     else None)"

record canvas =
  width :: nat
  height :: nat

record particle =
  p_x :: real
  p_y :: real
  p_size :: real
  p_speed :: real
  p_opacity :: real
  p_windOffset :: real
  p_windSpeed :: real
  p_rotation :: real
  p_rotationSpeed :: real

text \<open>
  One record for every special particle.  A field that an object literal of the source
  leaves out is 0 here (and \<open>[]\<close> for the shape); no update rule reads such a field of a
  particle of that kind.  \<open>s_shape\<close> and \<open>s_snowLevel\<close> exist only in the second engine
  variant (below).
\<close>

record segment =
  seg_angle :: real
  seg_radius :: real
  seg_thickness :: real
  seg_color :: string

record special =
  s_type :: string
  s_x :: real
  s_y :: real
  s_baseY :: real
  s_vx :: real
  s_vy :: real
  s_waveAmplitude :: real
  s_waveFrequency :: real
  s_wavePhase :: real
  s_time :: real
  s_size :: real
  s_opacity :: real
  s_rotation :: real
  s_rotationSpeed :: real
  s_active :: bool
  s_static :: bool
  s_shape :: "segment list"
  s_snowLevel :: real

record options =
  opt_intensity :: "string option"
  opt_enabled :: "bool option"
  opt_seasonCheck :: "(unit \<Rightarrow> bool) option"

record snow_effect =
  intensity :: string
  enabled :: bool
  seasonCheck :: "(unit \<Rightarrow> bool) option"
  canvas :: "canvas option"
  particles :: "particle list"
  specialParticles :: "special list"
  animationId :: "nat option"
  lastTime :: real
  isPaused :: bool
  resizeTimeout :: "nat option"
  windGust :: real
  windGustTarget :: real
  lastGustTime :: real
  twinkleTime :: real

type_synonym outcome = "(error \<times> snow_effect) + snow_effect"

text \<open>The state of the object after a call, whether the call returned or threw.\<close>

definition after :: "outcome \<Rightarrow> snow_effect" where
  "after out = (case out of Inl (e, s) \<Rightarrow> s | Inr s \<Rightarrow> s)"

text \<open>
  JavaScript truthiness of the field \<open>animationId\<close>: \<open>null\<close> and the number 0 are falsy.
  The controller is Running when a frame request is pending, that is when the field is truthy.
\<close>

definition truthy :: "nat option \<Rightarrow> bool" where
  "truthy a = (case a of None \<Rightarrow> False | Some n \<Rightarrow> n \<noteq> 0)"

subsection \<open>Construction and the public lifecycle\<close>

text \<open>\<open>options.intensity || 'medium'\<close>: a missing or empty string gives the default.\<close>

definition constructor :: "options \<Rightarrow> snow_effect" where
  "constructor opts =
    \<lparr>intensity = (case opt_intensity opts of None \<Rightarrow> ''medium''
                   | Some i \<Rightarrow> if i = [] then ''medium'' else i),
     enabled = (case opt_enabled opts of None \<Rightarrow> False | Some b \<Rightarrow> b),
     seasonCheck = opt_seasonCheck opts,
     canvas = None,
     particles = [],
     specialParticles = [],
     animationId = None,
     lastTime = 0,
     isPaused = False,
     resizeTimeout = None,
     windGust = 0,
     windGustTarget = 0,
     lastGustTime = 0,
     twinkleTime = 0\<rparr>"

definition no_options :: options where
  "no_options = \<lparr>opt_intensity = None, opt_enabled = None, opt_seasonCheck = None\<rparr>"

definition shouldDisplay :: "snow_effect \<Rightarrow> bool" where
  "shouldDisplay s = (case seasonCheck s of Some f \<Rightarrow> f () | None \<Rightarrow> True)"

text \<open>
  \<open>_createParticle(config)\<close>: ten calls of \<open>Math.random()\<close>, in this order: depth, size,
  speed, opacity, windSpeed, x, y, windOffset, rotation, rotationSpeed.  Reading
  \<open>this.canvas.width\<close> throws a TypeError when \<open>this.canvas\<close> is null.
\<close>

definition createParticle :: "canvas option \<Rightarrow> config \<Rightarrow> rand \<Rightarrow> error + (particle \<times> rand)" where
  "createParticle cv cfg r =
    (let depth = r 0;
         size0 = fst (sizeRange cfg); size1 = snd (sizeRange cfg);
         speed0 = fst (speedRange cfg); speed1 = snd (speedRange cfg);
         (size, speed, opacity, windSpeed) =
           (if depth < 0.33 then
              (size0 + r 1 * (size1 - size0) * 1.5,
               speed0 + r 2 * (speed1 - speed0) * 1.3,
               0.8 + r 3 * 0.2,
               0.01 + r 4 * 0.02)
            else if depth < 0.66 then
              (size0 + r 1 * (size1 - size0),
               speed0 + r 2 * (speed1 - speed0),
               0.5 + r 3 * 0.2,
               0.02 + r 4 * 0.03)
            else
              (size0 + r 1 * (size1 - size0) * 0.7,
               speed0 + r 2 * (speed1 - speed0) * 0.7,
               0.3 + r 3 * 0.2,
               0.03 + r 4 * 0.04))
     in case cv of
          None \<Rightarrow> Inl TypeError
        | Some c \<Rightarrow>
            Inr (\<lparr>p_x = r 5 * real (width c),
                  p_y = r 6 * real (height c) - real (height c),
                  p_size = size,
                  p_speed = speed,
                  p_opacity = opacity,
                  p_windOffset = r 7 * pi * 2,
                  p_windSpeed = windSpeed,
                  p_rotation = r 8 * pi * 2,
                  p_rotationSpeed = (r 9 - 0.5) * 0.02\<rparr>,
                 drop_rand 10 r))"

definition createStaticTree :: "canvas option \<Rightarrow> rand \<Rightarrow> error + (special \<times> rand)" where
  "createStaticTree cv r =
    (case cv of
       None \<Rightarrow> Inl TypeError
     | Some c \<Rightarrow>
         Inr (\<lparr>s_type = ''tree'',
               s_x = r 0 * real (width c),
               s_y = r 1 * real (height c),
               s_baseY = 0,
               s_vx = 0,
               s_vy = 0,
               s_waveAmplitude = 0,
               s_waveFrequency = 0,
               s_wavePhase = 0,
               s_time = 0,
               s_size = 20 + r 2 * 15,
               s_opacity = 0.6 + r 3 * 0.3,
               s_rotation = 0,
               s_rotationSpeed = 0,
               s_active = True,
               s_static = True,
               s_shape = [],
               s_snowLevel = 0\<rparr>,
              drop_rand 4 r))"

definition createStaticWreath :: "canvas option \<Rightarrow> rand \<Rightarrow> error + (special \<times> rand)" where
  "createStaticWreath cv r =
    (case cv of
       None \<Rightarrow> Inl TypeError
     | Some c \<Rightarrow>
         Inr (\<lparr>s_type = ''wreath'',
               s_x = r 0 * real (width c),
               s_y = r 1 * real (height c),
               s_baseY = 0,
               s_vx = 0,
               s_vy = 0,
               s_waveAmplitude = 0,
               s_waveFrequency = 0,
               s_wavePhase = 0,
               s_time = 0,
               s_size = 15 + r 2 * 10,
               s_opacity = 0.7 + r 3 * 0.2,
               s_rotation = r 4 * pi * 2,
               s_rotationSpeed = 0,
               s_active = True,
               s_static = True,
               s_shape = [],
               s_snowLevel = 0\<rparr>,
              drop_rand 5 r))"

text \<open>
  A counting loop \<open>for (let i = 0; i < n; i++) body\<close> whose body may throw: the first
  argument is the number of iterations still to run.
\<close>

type_synonym loop_body = "rand \<Rightarrow> snow_effect \<Rightarrow> (error \<times> snow_effect) + (snow_effect \<times> rand)"

fun for_loop :: "nat \<Rightarrow> loop_body \<Rightarrow> loop_body" where
  "for_loop 0 body r s = Inr (s, r)"
| "for_loop (Suc n) body r s =
     (case body r s of
        Inl e \<Rightarrow> Inl e
      | Inr (s', r') \<Rightarrow> for_loop n body r' s')"

definition push_particle :: "config \<Rightarrow> loop_body" where
  "push_particle cfg r s =
    (case createParticle (canvas s) cfg r of
       Inl e \<Rightarrow> Inl (e, s)
     | Inr (p, r') \<Rightarrow> Inr (s\<lparr>particles := particles s @ [p]\<rparr>, r'))"

definition push_tree :: loop_body where
  "push_tree r s =
    (case createStaticTree (canvas s) r of
       Inl e \<Rightarrow> Inl (e, s)
     | Inr (p, r') \<Rightarrow> Inr (s\<lparr>specialParticles := specialParticles s @ [p]\<rparr>, r'))"

definition push_wreath :: loop_body where
  "push_wreath r s =
    (case createStaticWreath (canvas s) r of
       Inl e \<Rightarrow> Inl (e, s)
     | Inr (p, r') \<Rightarrow> Inr (s\<lparr>specialParticles := specialParticles s @ [p]\<rparr>, r'))"

text \<open>
  \<open>_createParticles()\<close>.  \<open>INTENSITY_CONFIG[this.intensity]\<close> is \<open>undefined\<close> for a name
  that is not a key of the table, and reading \<open>config.count\<close> then throws.  (Names that
  every JavaScript object inherits, such as \<open>constructor\<close>, are not told apart from other
  unknown names; no property below depends on them.)
\<close>

definition createParticles :: "host \<Rightarrow> rand \<Rightarrow> snow_effect \<Rightarrow> outcome" where
  "createParticles h r s =
    (case INTENSITY_CONFIG (intensity s) of
       None \<Rightarrow> Inl (TypeError, s)
     | Some cfg \<Rightarrow>
        (let isMobile = innerWidth h < 768;
             cnt = (if isMobile then count cfg div 2 else count cfg);
             s1 = s\<lparr>particles := [], specialParticles := []\<rparr>
         in (case for_loop cnt (push_particle cfg) r s1 of
               Inl e \<Rightarrow> Inl e
             | Inr (s2, r2) \<Rightarrow>
                (let treeCount = (if isMobile then trees cfg div 2 else trees cfg)
                 in (case for_loop treeCount push_tree r2 s2 of
                       Inl e \<Rightarrow> Inl e
                     | Inr (s3, r3) \<Rightarrow>
                        (let wreathCount = (if isMobile then wreaths cfg div 2 else wreaths cfg)
                         in (case for_loop wreathCount push_wreath r3 s3 of
                               Inl e \<Rightarrow> Inl e
                             | Inr (s4, r4) \<Rightarrow> Inr s4)))))))"

text \<open>
  \<open>_resizeCanvas()\<close> is called only where the canvas exists (from \<open>_createCanvas\<close>, and
  from the resize timer behind its test \<open>if (this.canvas)\<close>).  A new canvas element is
  300 by 150 until it is resized.
\<close>

definition resizeCanvas :: "host \<Rightarrow> snow_effect \<Rightarrow> snow_effect" where
  "resizeCanvas h s =
    s\<lparr>canvas := map_option (\<lambda>c. c\<lparr>width := innerWidth h, height := innerHeight h\<rparr>) (canvas s)\<rparr>"

definition createCanvas :: "host \<Rightarrow> snow_effect \<Rightarrow> snow_effect" where
  "createCanvas h s =
    resizeCanvas h (s\<lparr>canvas := Some \<lparr>width = 300, height = 150\<rparr>\<rparr>)"

definition init :: "host \<Rightarrow> rand \<Rightarrow> snow_effect \<Rightarrow> outcome" where
  "init h r s =
    (if canvas s \<noteq> None then Inr s
     else createParticles h r (createCanvas h s))"

definition start :: "host \<Rightarrow> snow_effect \<Rightarrow> snow_effect" where
  "start h s =
    (if canvas s = None \<or> truthy (animationId s) then s
     else s\<lparr>isPaused := False,
            lastTime := now h,
            lastGustTime := now h,
            animationId := Some (frameHandle h)\<rparr>)"

definition pause :: "snow_effect \<Rightarrow> snow_effect" where
  "pause s =
    (let s1 = s\<lparr>isPaused := True\<rparr>
     in if truthy (animationId s1) then s1\<lparr>animationId := None\<rparr> else s1)"

definition cleanup :: "snow_effect \<Rightarrow> snow_effect" where
  "cleanup s =
    s\<lparr>canvas := None, particles := [], specialParticles := [], animationId := None\<rparr>"

definition stop :: "snow_effect \<Rightarrow> snow_effect" where
  "stop s = cleanup (pause s)"

definition setIntensity :: "host \<Rightarrow> rand \<Rightarrow> string \<Rightarrow> snow_effect \<Rightarrow> outcome" where
  "setIntensity h r level s =
    (if level \<notin> set [''light'', ''medium'', ''heavy''] then Inr s
     else createParticles h r (s\<lparr>intensity := level\<rparr>))"

text \<open>
  \<open>_handleVisibility()\<close>, the listener of \<open>visibilitychange\<close>; \<open>hidden h\<close> is
  \<open>document.hidden\<close> at the time of the event.
\<close>

definition handleVisibility :: "host \<Rightarrow> snow_effect \<Rightarrow> snow_effect" where
  "handleVisibility h s =
    (if hidden h then pause s
     else if enabled s \<and> \<not> isPaused s then start h s
     else s)"

text \<open>
  \<open>_handleResize()\<close> only (re)arms a 250 ms timer; \<open>resizeTimerFired\<close> is the timer's
  callback.
\<close>

definition handleResize :: "host \<Rightarrow> snow_effect \<Rightarrow> snow_effect" where
  "handleResize h s = s\<lparr>resizeTimeout := Some (timerHandle h)\<rparr>"

definition resizeTimerFired :: "host \<Rightarrow> rand \<Rightarrow> snow_effect \<Rightarrow> outcome" where
  "resizeTimerFired h r s =
    (if canvas s \<noteq> None then createParticles h r (resizeCanvas h s) else Inr s)"

subsection \<open>Binary64 rounding\<close>

text \<open>
  A JavaScript number is an IEEE 754 binary64 value, and each arithmetic operation returns
  the exact result rounded to the nearest such value, ties going to the even significand.
  \<open>binary64 x\<close> is that rounding of the real \<open>x\<close>: \<open>exponent64 x\<close> is the exponent of the
  binade of \<open>x\<close> (not below -1022, where the subnormal numbers begin), \<open>ulp64 x\<close> the
  spacing of the binary64 values in that binade (52 fraction bits), and the result is the
  multiple of the spacing nearest to \<open>x\<close>.  Overflow to infinity (beyond about 1.8e308)
  and the sign of zero are not modelled.  A real \<open>x\<close> is a binary64 value exactly when
  \<open>binary64 x = x\<close>.
\<close>

definition round_even :: "real \<Rightarrow> int" where
  "round_even x =
    (let f = \<lfloor>x\<rfloor>; d = x - of_int f
     in if d < 1 / 2 then f
        else if d > 1 / 2 then f + 1
        else if even f then f else f + 1)"

definition exponent64 :: "real \<Rightarrow> int" where
  "exponent64 x = max \<lfloor>log 2 \<bar>x\<bar>\<rfloor> (- 1022)"

definition ulp64 :: "real \<Rightarrow> real" where
  "ulp64 x = 2 powr of_int (exponent64 x - 52)"

definition binary64 :: "real \<Rightarrow> real" where
  "binary64 x = (if x = 0 then 0 else of_int (round_even (x / ulp64 x)) * ulp64 x)"

subsection \<open>The simulation step\<close>

text \<open>
  \<open>_updateParticle(particle, deltaTime)\<close>, in the three stages its comments name.  The
  canvas and the current gust are fields of \<open>this\<close> in the source and parameters here;
  the only caller, \<open>_animate\<close>, has checked that the canvas exists.
\<close>

definition applyMotion :: "real \<Rightarrow> real \<Rightarrow> particle \<Rightarrow> particle" where
  "applyMotion gust deltaTime p =
    (let normalizedDelta = deltaTime / (1000 / 60);
         p1 = p\<lparr>p_y := p_y p + p_speed p * normalizedDelta\<rparr>;
         p2 = p1\<lparr>p_windOffset := p_windOffset p1 + p_windSpeed p1 * normalizedDelta\<rparr>;
         baseWind = sin (p_windOffset p2) * 0.5;
         p3 = p2\<lparr>p_x := p_x p2 + (baseWind + gust) * normalizedDelta\<rparr>
     in p3\<lparr>p_rotation := p_rotation p3 + p_rotationSpeed p3 * normalizedDelta\<rparr>)"

definition recycleAtBottom :: "canvas \<Rightarrow> particle \<Rightarrow> rand \<Rightarrow> particle \<times> rand" where
  "recycleAtBottom c p r =
    (if p_y p > real (height c) + 10
     then (p\<lparr>p_y := - 10, p_x := r 0 * real (width c)\<rparr>, drop_rand 1 r)
     else (p, r))"

definition wrapHorizontally :: "canvas \<Rightarrow> particle \<Rightarrow> particle" where
  "wrapHorizontally c p =
    (if p_x p < - 10 then p\<lparr>p_x := real (width c) + 10\<rparr>
     else if p_x p > real (width c) + 10 then p\<lparr>p_x := - 10\<rparr>
     else p)"

definition updateParticle :: "canvas \<Rightarrow> real \<Rightarrow> real \<Rightarrow> particle \<Rightarrow> rand \<Rightarrow> particle \<times> rand" where
  "updateParticle c gust deltaTime p r =
    (let (p1, r1) = recycleAtBottom c (applyMotion gust deltaTime p) r
     in (wrapHorizontally c p1, r1))"

text \<open>\<open>_spawnSpecialParticle()\<close>: seven calls of \<open>Math.random()\<close>.\<close>

definition spawnSpecialParticle :: "canvas \<Rightarrow> rand \<Rightarrow> snow_effect \<Rightarrow> snow_effect \<times> rand" where
  "spawnSpecialParticle c r s =
    (let fromLeft = r 0 < 0.5;
         startY = r 1 * (real (height c) * 0.5);
         sleigh =
           \<lparr>s_type = ''sleigh'',
            s_x = (if fromLeft then - 100 else real (width c) + 100),
            s_y = startY,
            s_baseY = startY,
            s_vx = (if fromLeft then 3 + r 2 * 2 else - (3 + r 2 * 2)),
            s_vy = 0,
            s_waveAmplitude = 20 + r 3 * 30,
            s_waveFrequency = 0.001 + r 4 * 0.002,
            s_wavePhase = r 5 * pi * 2,
            s_time = 0,
            s_size = 15 + r 6 * 10,
            s_opacity = 0.9,
            s_rotation = 0,
            s_rotationSpeed = 0,
            s_active = True,
            s_static = False,
            s_shape = [],
            s_snowLevel = 0\<rparr>
     in (s\<lparr>specialParticles := specialParticles s @ [sleigh]\<rparr>, drop_rand 7 r))"

definition updateSpecialParticle :: "canvas \<Rightarrow> real \<Rightarrow> special \<Rightarrow> special" where
  "updateSpecialParticle c deltaTime p =
    (if s_static p then p
     else
       (let normalizedDelta = deltaTime / (1000 / 60);
            p1 = p\<lparr>s_x := s_x p + s_vx p * normalizedDelta\<rparr>
        in if s_type p1 = ''sleigh'' then
             (let p2 = p1\<lparr>s_time := s_time p1 + deltaTime\<rparr>;
                  wave = sin (s_time p2 * s_waveFrequency p2 + s_wavePhase p2);
                  p3 = p2\<lparr>s_y := s_baseY p2 + wave * s_waveAmplitude p2\<rparr>
              in if s_x p3 < - 200 \<or> s_x p3 > real (width c) + 200
                 then p3\<lparr>s_active := False\<rparr> else p3)
           else p1))"

text \<open>\<open>this.particles.forEach(...)\<close>: every drift particle is updated, in order.\<close>

fun forEach_update :: "canvas \<Rightarrow> real \<Rightarrow> real \<Rightarrow> particle list \<Rightarrow> rand \<Rightarrow> particle list \<times> rand" where
  "forEach_update c gust deltaTime [] r = ([], r)"
| "forEach_update c gust deltaTime (p # ps) r =
     (let (p', r') = updateParticle c gust deltaTime p r;
          (ps', r'') = forEach_update c gust deltaTime ps r'
      in (p' # ps', r''))"

text \<open>
  \<open>this.specialParticles.filter(...)\<close>: every special particle is updated, and kept when
  it is still active.
\<close>

fun filter_update :: "canvas \<Rightarrow> real \<Rightarrow> special list \<Rightarrow> special list" where
  "filter_update c deltaTime [] = []"
| "filter_update c deltaTime (p # ps) =
     (let p' = updateSpecialParticle c deltaTime p
      in if s_active p' then p' # filter_update c deltaTime ps
         else filter_update c deltaTime ps)"

text \<open>
  \<open>_animate(currentTime)\<close>, the frame callback.  The guard
  \<open>if (this.isPaused || !this.canvas) return\<close> is the first two branches.  The wind lines
  (the re-roll test, the new target and the easing of the gust) are in binary64
  arithmetic: \<open>a - b\<close> of the source is \<open>binary64 (a - b)\<close>, and the literal \<open>0.02\<close> is the
  binary64 value \<open>binary64 0.02\<close>; the literals 0.5, 4, 5000 and 10000 are exact.
\<close>

definition animate :: "host \<Rightarrow> rand \<Rightarrow> real \<Rightarrow> snow_effect \<Rightarrow> snow_effect" where
  "animate h r currentTime s =
    (if isPaused s then s
     else case canvas s of
       None \<Rightarrow> s
     | Some c \<Rightarrow>
        (let deltaTime = currentTime - lastTime s;
             s1 = s\<lparr>lastTime := currentTime, twinkleTime := currentTime\<rparr>;
             reroll = (binary64 (currentTime - lastGustTime s1)
                         > binary64 (5000 + binary64 (r 0 * 10000)));
             s2 = (if reroll
                   then s1\<lparr>windGustTarget := binary64 (binary64 (r 1 - 0.5) * 4),
                           lastGustTime := currentTime\<rparr>
                   else s1);
             r2 = (if reroll then drop_rand 2 r else drop_rand 1 r);
             s3 = s2\<lparr>windGust :=
                    binary64 (windGust s2
                      + binary64 (binary64 (windGustTarget s2 - windGust s2) * binary64 0.02))\<rparr>;
             spawn = (r2 0 < 0.0005);
             (s4, r4) = (if spawn then spawnSpecialParticle c (drop_rand 1 r2) s3
                         else (s3, drop_rand 1 r2));
             (ps, r5) = forEach_update c (windGust s4) deltaTime (particles s4) r4;
             s5 = s4\<lparr>particles := ps\<rparr>;
             s6 = s5\<lparr>specialParticles := filter_update c deltaTime (specialParticles s5)\<rparr>
         in s6\<lparr>animationId := Some (frameHandle h)\<rparr>))"

subsection \<open>Reachable controller states\<close>

text \<open>
  The states an object can be in: it is constructed, and then methods, listeners and
  frame callbacks run on it in any order, with any host inputs and any results of
  \<open>Math.random()\<close> in [0, 1).  A call that throws leaves a reachable state too.
\<close>

inductive reachable :: "snow_effect \<Rightarrow> bool" where
  r_constructor: "reachable (constructor opts)"
| r_init: "reachable s \<Longrightarrow> Math_random_range r \<Longrightarrow> reachable (after (init h r s))"
| r_start: "reachable s \<Longrightarrow> reachable (start h s)"
| r_pause: "reachable s \<Longrightarrow> reachable (pause s)"
| r_stop: "reachable s \<Longrightarrow> reachable (stop s)"
| r_setIntensity:
    "reachable s \<Longrightarrow> Math_random_range r \<Longrightarrow> reachable (after (setIntensity h r level s))"
| r_animate: "reachable s \<Longrightarrow> Math_random_range r \<Longrightarrow> reachable (animate h r t s)"
| r_handleVisibility: "reachable s \<Longrightarrow> reachable (handleVisibility h s)"
| r_handleResize: "reachable s \<Longrightarrow> reachable (handleResize h s)"
| r_resizeTimerFired:
    "reachable s \<Longrightarrow> Math_random_range r \<Longrightarrow> reachable (after (resizeTimerFired h r s))"

text \<open>
  Two wind invariants: gust and target both lie in [-2, 2], and both are binary64 values.
\<close>

definition wind_in_range :: "snow_effect \<Rightarrow> bool" where
  "wind_in_range s =
    (- 2 \<le> windGust s \<and> windGust s \<le> 2 \<and> - 2 \<le> windGustTarget s \<and> windGustTarget s \<le> 2)"

definition wind_binary64 :: "snow_effect \<Rightarrow> bool" where
  "wind_binary64 s =
    (binary64 (windGust s) = windGust s \<and> binary64 (windGustTarget s) = windGustTarget s)"

section \<open>The second engine variant\<close>

text \<open>
  The repository holds a second copy of the class (the one that follows the type
  declarations in types/index.d.ts).  It differs in its profile table, in the static
  decorations, which carry a snow level, and in the sprites it spawns.  The functions
  below are the variant's \<open>_createStaticTree\<close>, \<open>_createStaticWreath\<close> and
  \<open>_updateSpecialParticle\<close>; the suffix 2 tells them from the first engine's.
\<close>

definition createStaticTree2 :: "canvas option \<Rightarrow> rand \<Rightarrow> error + (special \<times> rand)" where
  "createStaticTree2 cv r =
    (case cv of
       None \<Rightarrow> Inl TypeError
     | Some c \<Rightarrow>
         Inr (\<lparr>s_type = ''tree'',
               s_x = r 0 * real (width c),
               s_y = r 1 * real (height c),
               s_baseY = 0,
               s_vx = 0,
               s_vy = 0,
               s_waveAmplitude = 0,
               s_waveFrequency = 0,
               s_wavePhase = 0,
               s_time = 0,
               s_size = 20 + r 2 * 15,
               s_opacity = 0.6 + r 3 * 0.3,
               s_rotation = 0,
               s_rotationSpeed = 0,
               s_active = True,
               s_static = True,
               s_shape = [],
               s_snowLevel = 0\<rparr>,
              drop_rand 4 r))"

text \<open>
  The wreath's ring is generated first: 20 segments, two calls of \<open>Math.random()\<close> each,
  before the four calls of the object literal.
\<close>

definition wreathShape :: "rand \<Rightarrow> segment list" where
  "wreathShape r =
    map (\<lambda>i. \<lparr>seg_angle = (real i / 20) * pi * 2,
              seg_radius = 0.9 + r (2 * i) * 0.2,
              seg_thickness = 0.2 + r (2 * i + 1) * 0.15,
              seg_color = (if i mod 2 = 0 then ''#1a6b1a'' else ''#228B22'')\<rparr>)
        [0..<20]"

definition createStaticWreath2 :: "canvas option \<Rightarrow> rand \<Rightarrow> error + (special \<times> rand)" where
  "createStaticWreath2 cv r =
    (let shape = wreathShape r; r' = drop_rand 40 r
     in case cv of
          None \<Rightarrow> Inl TypeError
        | Some c \<Rightarrow>
            Inr (\<lparr>s_type = ''wreath'',
                  s_x = r' 0 * real (width c),
                  s_y = r' 1 * real (height c),
                  s_baseY = 0,
                  s_vx = 0,
                  s_vy = 0,
                  s_waveAmplitude = 0,
                  s_waveFrequency = 0,
                  s_wavePhase = 0,
                  s_time = 0,
                  s_size = 15 + r' 2 * 10,
                  s_opacity = 0.7 + r' 3 * 0.2,
                  s_rotation = 0,
                  s_rotationSpeed = 0,
                  s_active = True,
                  s_static = True,
                  s_shape = shape,
                  s_snowLevel = 0\<rparr>,
                 drop_rand 4 r'))"

definition updateSpecialParticle2 :: "canvas \<Rightarrow> real \<Rightarrow> special \<Rightarrow> rand \<Rightarrow> special \<times> rand" where
  "updateSpecialParticle2 c deltaTime p r =
    (let normalizedDelta = deltaTime / (1000 / 60)
     in if s_static p then
          (if r 0 < 0.0005
           then (p\<lparr>s_snowLevel := min (s_snowLevel p + r 1 * 0.2) (s_size p * 0.3)\<rparr>,
                 drop_rand 2 r)
           else (p, drop_rand 1 r))
        else
          (let p1 = p\<lparr>s_x := s_x p + s_vx p * normalizedDelta\<rparr>;
               p2 = p1\<lparr>s_time := s_time p1 + deltaTime\<rparr>
           in if s_type p2 = ''sleigh'' \<or> s_type p2 = ''elf'' then
                (let wave = sin (s_time p2 * s_waveFrequency p2 + s_wavePhase p2);
                     p3 = p2\<lparr>s_y := s_baseY p2 + wave * s_waveAmplitude p2\<rparr>;
                     offscreenMargin = (if s_type p3 = ''sleigh'' then 200 else 100)
                 in if s_x p3 < - offscreenMargin \<or> s_x p3 > real (width c) + offscreenMargin
                    then (p3\<lparr>s_active := False\<rparr>, r) else (p3, r))
              else (p2, r)))"

text \<open>
  The history of one decoration.  Each frame, \<open>_animate\<close> calls
  \<open>_updateSpecialParticle(particle, deltaTime)\<close> once on every particle of the collection,
  and nothing else writes a particle's fields.  A frame is given by its elapsed time and
  by the results \<open>Math.random()\<close> returns from the moment this particle's turn comes;
  \<open>frames2 c p fs\<close> lists the particle's state after each frame of \<open>fs\<close>.
\<close>

fun frames2 :: "canvas \<Rightarrow> special \<Rightarrow> (real \<times> rand) list \<Rightarrow> special list" where
  "frames2 c p [] = []"
| "frames2 c p ((deltaTime, r) # fs) =
     (let p' = fst (updateSpecialParticle2 c deltaTime p r)
      in p' # frames2 c p' fs)"

text \<open>The invariant of a static decoration: it stays in the collection (active), it is
  static, and its snow level is at most its cap.\<close>

definition snow_ok :: "special \<Rightarrow> bool" where
  "snow_ok p = (s_active p \<and> s_static p \<and> s_snowLevel p \<le> s_size p * 0.3)"

section \<open>Example inputs\<close>

text \<open>A desktop and a phone viewport, and a source of random numbers that always returns 1/2.\<close>

definition desktop :: host where
  "desktop = \<lparr>innerWidth = 1280, innerHeight = 720, now = 0, frameHandle = 1, timerHandle = 1, hidden = False\<rparr>"

definition phone :: host where
  "phone = \<lparr>innerWidth = 375, innerHeight = 667, now = 0, frameHandle = 1, timerHandle = 1, hidden = False\<rparr>"

definition enabled_options :: options where
  "enabled_options = \<lparr>opt_intensity = None, opt_enabled = Some True, opt_seasonCheck = None\<rparr>"

definition half :: rand where
  "half = (\<lambda>n. 1 / 2)"

definition flake :: particle where
  "flake = \<lparr>p_x = 100, p_y = 50, p_size = 2, p_speed = 1, p_opacity = 1,
            p_windOffset = 0, p_windSpeed = 0, p_rotation = 0, p_rotationSpeed = 0\<rparr>"

definition viewport :: canvas where
  "viewport = \<lparr>width = 1280, height = 720\<rparr>"

definition zero_width :: canvas where
  "zero_width = \<lparr>width = 0, height = 720\<rparr>"

definition three_quarters :: rand where
  "three_quarters = (\<lambda>n. 3 / 4)"

text \<open>
  A controller initialized and started at time 0 on the desktop, and its states after
  frames at 20000 ms and 20016 ms in which every random number is 3/4; \<open>gust1\<close>,
  \<open>gust2\<close> and \<open>gust3\<close> are the binary64 values the gust takes after the first three
  frames (\<open>gust1\<close> is also the binary64 value of the literal 0.02).
\<close>

definition started :: snow_effect where
  "started = start desktop (after (init desktop half (constructor no_options)))"

definition after_frame1 :: snow_effect where
  "after_frame1 = animate desktop three_quarters 20000 started"

definition after_frame2 :: snow_effect where
  "after_frame2 = animate desktop three_quarters 20016 after_frame1"

definition gust1 :: real where "gust1 = 5764607523034235 / 288230376151711744"
definition gust2 :: real where "gust2 = 1426740361950973 / 36028797018963968"
definition gust3 :: real where "gust3 = 2118781495091233 / 36028797018963968"

definition snowing :: rand where
  "snowing = (\<lambda>n. if n = 0 then 0 else 1 / 2)"

definition example_tree :: special where
  "example_tree =
    \<lparr>s_type = ''tree'', s_x = 640, s_y = 360, s_baseY = 0, s_vx = 0, s_vy = 0,
     s_waveAmplitude = 0, s_waveFrequency = 0, s_wavePhase = 0, s_time = 0,
     s_size = 55 / 2, s_opacity = 3 / 4, s_rotation = 0, s_rotationSpeed = 0,
     s_active = True, s_static = True, s_shape = [], s_snowLevel = 0\<rparr>"

section \<open>Properties\<close>

subsection \<open>Building the particle population\<close>

lemma Math_random_range_drop:
  "Math_random_range r \<Longrightarrow> Math_random_range (drop_rand k r)"
  by (simp add: Math_random_range_def drop_rand_def)

lemma push_particle_None:
  "canvas s = None \<Longrightarrow> push_particle cfg r s = Inl (TypeError, s)"
  by (simp add: push_particle_def createParticle_def Let_def split: prod.splits)

lemma for_loop_push_particle_None:
  "canvas s = None \<Longrightarrow> 0 < n \<Longrightarrow> for_loop n (push_particle cfg) r s = Inl (TypeError, s)"
  by (cases n) (simp_all add: push_particle_None)

lemma createParticles_None:
  assumes "canvas s = None" and "INTENSITY_CONFIG (intensity s) = Some cfg" and "2 \<le> count cfg"
  shows "createParticles h r s = Inl (TypeError, s\<lparr>particles := [], specialParticles := []\<rparr>)"
proof -
  have "0 < (if innerWidth h < 768 then count cfg div 2 else count cfg)"
    using assms(3) by auto
  then show ?thesis
    using assms(1,2) by (simp add: createParticles_def Let_def for_loop_push_particle_None)
qed

lemma INTENSITY_CONFIG_count:
  "INTENSITY_CONFIG tier = Some cfg \<Longrightarrow> 2 \<le> count cfg"
  by (auto simp: INTENSITY_CONFIG_def split: if_splits)

lemma createParticle_Some:
  "\<exists>p. createParticle (Some c) cfg r = Inr (p, drop_rand 10 r)"
  by (simp add: createParticle_def Let_def split: prod.splits)

lemma for_loop_push_particle:
  "canvas s = Some c \<Longrightarrow>
   \<exists>ps r'. for_loop n (push_particle cfg) r s = Inr (s\<lparr>particles := particles s @ ps\<rparr>, r')
      \<and> length ps = n
      \<and> (\<forall>p\<in>set ps. \<exists>r0. createParticle (Some c) cfg r0 = Inr (p, drop_rand 10 r0))"
proof (induction n arbitrary: r s)
  case 0
  then show ?case by simp
next
  case (Suc n)
  obtain p where p: "createParticle (Some c) cfg r = Inr (p, drop_rand 10 r)"
    using createParticle_Some by blast
  let ?s = "s\<lparr>particles := particles s @ [p]\<rparr>"
  have "canvas ?s = Some c" using Suc.prems by simp
  from Suc.IH[OF this, of "drop_rand 10 r"] obtain ps r' where
    ih: "for_loop n (push_particle cfg) (drop_rand 10 r) ?s = Inr (?s\<lparr>particles := particles ?s @ ps\<rparr>, r')"
      "length ps = n"
      "\<forall>p\<in>set ps. \<exists>r0. createParticle (Some c) cfg r0 = Inr (p, drop_rand 10 r0)"
    by blast
  have "for_loop (Suc n) (push_particle cfg) r s = Inr (s\<lparr>particles := particles s @ (p # ps)\<rparr>, r')"
    using Suc.prems p ih(1) by (simp add: push_particle_def)
  moreover have "length (p # ps) = Suc n" using ih(2) by simp
  moreover have "\<forall>q\<in>set (p # ps). \<exists>r0. createParticle (Some c) cfg r0 = Inr (q, drop_rand 10 r0)"
    using p ih(3) by auto
  ultimately show ?case by blast
qed

lemma for_loop_push_tree:
  "canvas s = Some c \<Longrightarrow>
   \<exists>ts r'. for_loop n push_tree r s = Inr (s\<lparr>specialParticles := specialParticles s @ ts\<rparr>, r')
      \<and> length ts = n \<and> (\<forall>t\<in>set ts. s_type t = ''tree'')"
proof (induction n arbitrary: r s)
  case 0
  then show ?case by simp
next
  case (Suc n)
  obtain t where t: "createStaticTree (Some c) r = Inr (t, drop_rand 4 r)" "s_type t = ''tree''"
    by (simp add: createStaticTree_def)
  let ?s = "s\<lparr>specialParticles := specialParticles s @ [t]\<rparr>"
  have "canvas ?s = Some c" using Suc.prems by simp
  from Suc.IH[OF this, of "drop_rand 4 r"] obtain ts r' where
    ih: "for_loop n push_tree (drop_rand 4 r) ?s = Inr (?s\<lparr>specialParticles := specialParticles ?s @ ts\<rparr>, r')"
      "length ts = n" "\<forall>t\<in>set ts. s_type t = ''tree''"
    by blast
  have "for_loop (Suc n) push_tree r s = Inr (s\<lparr>specialParticles := specialParticles s @ (t # ts)\<rparr>, r')"
    using Suc.prems t(1) ih(1) by (simp add: push_tree_def)
  moreover have "length (t # ts) = Suc n" using ih(2) by simp
  moreover have "\<forall>q\<in>set (t # ts). s_type q = ''tree''"
    using t(2) ih(3) by auto
  ultimately show ?case by blast
qed

lemma for_loop_push_wreath:
  "canvas s = Some c \<Longrightarrow>
   \<exists>ws r'. for_loop n push_wreath r s = Inr (s\<lparr>specialParticles := specialParticles s @ ws\<rparr>, r')
      \<and> length ws = n \<and> (\<forall>w\<in>set ws. s_type w = ''wreath'')"
proof (induction n arbitrary: r s)
  case 0
  then show ?case by simp
next
  case (Suc n)
  obtain t where t: "createStaticWreath (Some c) r = Inr (t, drop_rand 5 r)" "s_type t = ''wreath''"
    by (simp add: createStaticWreath_def)
  let ?s = "s\<lparr>specialParticles := specialParticles s @ [t]\<rparr>"
  have "canvas ?s = Some c" using Suc.prems by simp
  from Suc.IH[OF this, of "drop_rand 5 r"] obtain ts r' where
    ih: "for_loop n push_wreath (drop_rand 5 r) ?s = Inr (?s\<lparr>specialParticles := specialParticles ?s @ ts\<rparr>, r')"
      "length ts = n" "\<forall>t\<in>set ts. s_type t = ''wreath''"
    by blast
  have "for_loop (Suc n) push_wreath r s = Inr (s\<lparr>specialParticles := specialParticles s @ (t # ts)\<rparr>, r')"
    using Suc.prems t(1) ih(1) by (simp add: push_wreath_def)
  moreover have "length (t # ts) = Suc n" using ih(2) by simp
  moreover have "\<forall>q\<in>set (t # ts). s_type q = ''wreath''"
    using t(2) ih(3) by auto
  ultimately show ?case by blast
qed

lemma createParticles_Some:
  assumes c: "canvas s = Some c" and cfg: "INTENSITY_CONFIG (intensity s) = Some cfg"
  shows "\<exists>ps ts ws.
    createParticles h r s = Inr (s\<lparr>particles := ps, specialParticles := ts @ ws\<rparr>)
    \<and> length ps = (if innerWidth h < 768 then count cfg div 2 else count cfg)
    \<and> (\<forall>p\<in>set ps. \<exists>r0. createParticle (Some c) cfg r0 = Inr (p, drop_rand 10 r0))
    \<and> length ts = (if innerWidth h < 768 then trees cfg div 2 else trees cfg)
    \<and> (\<forall>t\<in>set ts. s_type t = ''tree'')
    \<and> length ws = (if innerWidth h < 768 then wreaths cfg div 2 else wreaths cfg)
    \<and> (\<forall>w\<in>set ws. s_type w = ''wreath'')"
proof -
  let ?m = "innerWidth h < 768"
  let ?s1 = "s\<lparr>particles := [], specialParticles := []\<rparr>"
  have c1: "canvas ?s1 = Some c" using c by simp
  from for_loop_push_particle[OF c1, of "if ?m then count cfg div 2 else count cfg" cfg r]
  obtain ps r2 where
    l1: "for_loop (if ?m then count cfg div 2 else count cfg) (push_particle cfg) r ?s1
           = Inr (?s1\<lparr>particles := particles ?s1 @ ps\<rparr>, r2)"
    and ps: "length ps = (if ?m then count cfg div 2 else count cfg)"
      "\<forall>p\<in>set ps. \<exists>r0. createParticle (Some c) cfg r0 = Inr (p, drop_rand 10 r0)"
    by blast
  let ?s2 = "?s1\<lparr>particles := particles ?s1 @ ps\<rparr>"
  have c2: "canvas ?s2 = Some c" using c by simp
  from for_loop_push_tree[OF c2, of "if ?m then trees cfg div 2 else trees cfg" r2]
  obtain ts r3 where
    l2: "for_loop (if ?m then trees cfg div 2 else trees cfg) push_tree r2 ?s2
           = Inr (?s2\<lparr>specialParticles := specialParticles ?s2 @ ts\<rparr>, r3)"
    and ts: "length ts = (if ?m then trees cfg div 2 else trees cfg)"
      "\<forall>t\<in>set ts. s_type t = ''tree''"
    by blast
  let ?s3 = "?s2\<lparr>specialParticles := specialParticles ?s2 @ ts\<rparr>"
  have c3: "canvas ?s3 = Some c" using c by simp
  from for_loop_push_wreath[OF c3, of "if ?m then wreaths cfg div 2 else wreaths cfg" r3]
  obtain ws r4 where
    l3: "for_loop (if ?m then wreaths cfg div 2 else wreaths cfg) push_wreath r3 ?s3
           = Inr (?s3\<lparr>specialParticles := specialParticles ?s3 @ ws\<rparr>, r4)"
    and ws: "length ws = (if ?m then wreaths cfg div 2 else wreaths cfg)"
      "\<forall>w\<in>set ws. s_type w = ''wreath''"
    by blast
  have "createParticles h r s = Inr (s\<lparr>particles := ps, specialParticles := ts @ ws\<rparr>)"
    unfolding createParticles_def Let_def using cfg l1 l2 l3 by simp
  with ps ts ws show ?thesis by blast
qed

subsection \<open>Lifecycle\<close>

lemma createParticles_after:
  "\<exists>ps sps. after (createParticles h r s) = s\<lparr>particles := ps, specialParticles := sps\<rparr>"
proof (cases "INTENSITY_CONFIG (intensity s)")
  case None
  then have "after (createParticles h r s) = s\<lparr>particles := particles s, specialParticles := specialParticles s\<rparr>"
    by (simp add: createParticles_def after_def)
  then show ?thesis by blast
next
  case (Some cfg)
  show ?thesis
  proof (cases "canvas s")
    case None
    from createParticles_None[OF None Some INTENSITY_CONFIG_count[OF Some], of h r]
    have "after (createParticles h r s) = s\<lparr>particles := [], specialParticles := []\<rparr>"
      by (simp add: after_def)
    then show ?thesis by blast
  next
    case (Some c)
    from createParticles_Some[OF Some \<open>INTENSITY_CONFIG (intensity s) = Some cfg\<close>, of h r]
    obtain ps ts ws where
      "createParticles h r s = Inr (s\<lparr>particles := ps, specialParticles := ts @ ws\<rparr>)"
      by blast
    then have "after (createParticles h r s) = s\<lparr>particles := ps, specialParticles := ts @ ws\<rparr>"
      by (simp add: after_def)
    then show ?thesis by blast
  qed
qed

lemma after_init_constructor:
  "\<exists>ps sps. after (init h r (constructor opts))
      = (createCanvas h (constructor opts))\<lparr>particles := ps, specialParticles := sps\<rparr>"
  using createParticles_after[of h r "createCanvas h (constructor opts)"]
  by (simp add: init_def constructor_def)

lemma half_range: "Math_random_range half"
  by (simp add: Math_random_range_def half_def)

lemma three_quarters_range: "Math_random_range three_quarters"
  by (simp add: Math_random_range_def three_quarters_def)



lemma running_enabled_example:
  "reachable (start desktop (after (init desktop half (constructor enabled_options))))
   \<and> enabled (start desktop (after (init desktop half (constructor enabled_options))))
   \<and> \<not> isPaused (start desktop (after (init desktop half (constructor enabled_options))))
   \<and> truthy (animationId (start desktop (after (init desktop half (constructor enabled_options)))))"
proof -
  obtain ps sps where a: "after (init desktop half (constructor enabled_options))
      = (createCanvas desktop (constructor enabled_options))\<lparr>particles := ps, specialParticles := sps\<rparr>"
    using after_init_constructor by blast
  have "reachable (start desktop (after (init desktop half (constructor enabled_options))))"
    by (intro r_start r_init r_constructor half_range)
  moreover have "enabled (start desktop (after (init desktop half (constructor enabled_options))))"
    and "\<not> isPaused (start desktop (after (init desktop half (constructor enabled_options))))"
    and "truthy (animationId (start desktop (after (init desktop half (constructor enabled_options)))))"
    unfolding a
    by (simp_all add: start_def createCanvas_def resizeCanvas_def constructor_def truthy_def
          desktop_def enabled_options_def)
  ultimately show ?thesis by blast
qed

text \<open>
  Claim C1 says that a visibility loss followed by a visibility regain leaves an enabled,
  running controller Running again.  The code does not do that: the listener pauses
  through \<open>pause()\<close>, which sets \<open>isPaused\<close>, and the resume branch of the same listener
  requires \<open>!this.isPaused\<close>.  Whatever the state \<open>s\<close> before, after the two events the
  paused flag is set and no frame request is pending; and there is a reachable state that
  is enabled, running and was never paused: the one after \<open>init()\<close> and \<open>start()\<close> on an
  object constructed with \<open>enabled: true\<close>.
\<close>

theorem C1_hide_then_show_stays_paused:
  "isPaused (handleVisibility (h2\<lparr>hidden := False\<rparr>) (handleVisibility (h1\<lparr>hidden := True\<rparr>) s))
   \<and> \<not> truthy (animationId
          (handleVisibility (h2\<lparr>hidden := False\<rparr>) (handleVisibility (h1\<lparr>hidden := True\<rparr>) s)))
   \<and> reachable (start desktop (after (init desktop half (constructor enabled_options))))
   \<and> enabled (start desktop (after (init desktop half (constructor enabled_options))))
   \<and> \<not> isPaused (start desktop (after (init desktop half (constructor enabled_options))))
   \<and> truthy (animationId (start desktop (after (init desktop half (constructor enabled_options)))))"
proof -
  have "isPaused (handleVisibility (h2\<lparr>hidden := False\<rparr>) (handleVisibility (h1\<lparr>hidden := True\<rparr>) s))
   \<and> \<not> truthy (animationId
          (handleVisibility (h2\<lparr>hidden := False\<rparr>) (handleVisibility (h1\<lparr>hidden := True\<rparr>) s)))"
    by (simp add: handleVisibility_def pause_def truthy_def Let_def split: option.splits)
  with running_enabled_example show ?thesis by blast
qed

text \<open>
  Claim C2 says that no public operation throws, in particular \<open>setIntensity\<close> with a valid
  tier before \<open>init()\<close>.  On a freshly constructed object \<open>setIntensity('heavy')\<close> throws a
  TypeError: \<open>_createParticles\<close> runs without a canvas, and the first \<open>_createParticle\<close>
  reads \<open>this.canvas.width\<close>.  The tier has been overwritten by then.
\<close>

theorem C2_setIntensity_before_init_throws:
  "setIntensity h r ''heavy'' (constructor opts)
     = Inl (TypeError, (constructor opts)\<lparr>intensity := ''heavy''\<rparr>)"
proof -
  let ?s = "(constructor opts)\<lparr>intensity := ''heavy''\<rparr>"
  have c: "canvas ?s = None" by (simp add: constructor_def)
  obtain cfg where cfg: "INTENSITY_CONFIG (intensity ?s) = Some cfg"
    by (simp add: INTENSITY_CONFIG_def)
  have "?s\<lparr>particles := [], specialParticles := []\<rparr> = ?s"
    by (simp add: constructor_def)
  then show ?thesis
    using createParticles_None[OF c cfg INTENSITY_CONFIG_count[OF cfg], of h r]
    by (simp add: setIntensity_def)
qed

text \<open>
  Claim C3 says that \<open>pause()\<close> outside the Running state changes nothing, the paused
  flag included.  On a freshly constructed object (not running, flag clear) the call
  sets the flag.
\<close>

theorem C3_pause_sets_flag_counterexample:
  "\<not> truthy (animationId (constructor no_options))
   \<and> \<not> isPaused (constructor no_options)
   \<and> isPaused (pause (constructor no_options))
   \<and> pause (constructor no_options) \<noteq> constructor no_options"
  by (simp add: constructor_def no_options_def pause_def truthy_def Let_def)

text \<open>
  Claim C3, amended: when no frame request is pending, \<open>pause()\<close> changes nothing but the
  paused flag, which it sets; so the call is the identity exactly when the flag was set
  already.
\<close>

theorem C3_pause_when_not_running:
  assumes "\<not> truthy (animationId s)"
  shows "pause s = s\<lparr>isPaused := True\<rparr> \<and> (pause s = s) = isPaused s"
proof -
  have eq: "pause s = s\<lparr>isPaused := True\<rparr>"
    using assms by (simp add: pause_def Let_def)
  have "(s\<lparr>isPaused := True\<rparr> = s) = isPaused s"
    by (cases s) auto
  with eq show ?thesis by simp
qed

theorem C3_pause_when_not_running_witness:
  "\<not> truthy (animationId (constructor no_options))
   \<and> pause (constructor no_options) = (constructor no_options)\<lparr>isPaused := True\<rparr>"
  using C3_pause_when_not_running [of "constructor no_options"]
  by (simp add: constructor_def no_options_def truthy_def)



text \<open>
  Claim C5: for every profile of the table, \<open>_createParticles\<close> on an existing canvas
  returns with drift, tree and wreath counts equal to the profile's values divided by
  two and floored when the window is narrower than 768 px, and equal to the profile's
  values otherwise.
\<close>

theorem C5_population_counts:
  assumes "INTENSITY_CONFIG (intensity s) = Some cfg" and "canvas s \<noteq> None"
  shows "\<exists>s'. createParticles h r s = Inr s'
    \<and> (innerWidth h < 768 \<longrightarrow>
          length (particles s') = count cfg div 2
        \<and> length (filter (\<lambda>p. s_type p = ''tree'') (specialParticles s')) = trees cfg div 2
        \<and> length (filter (\<lambda>p. s_type p = ''wreath'') (specialParticles s')) = wreaths cfg div 2)
    \<and> (768 \<le> innerWidth h \<longrightarrow>
          length (particles s') = count cfg
        \<and> length (filter (\<lambda>p. s_type p = ''tree'') (specialParticles s')) = trees cfg
        \<and> length (filter (\<lambda>p. s_type p = ''wreath'') (specialParticles s')) = wreaths cfg)"
proof -
  obtain c where c: "canvas s = Some c" using assms(2) by auto
  from createParticles_Some[OF c assms(1), of h r] obtain ps ts ws where
    *: "createParticles h r s = Inr (s\<lparr>particles := ps, specialParticles := ts @ ws\<rparr>)"
       "length ps = (if innerWidth h < 768 then count cfg div 2 else count cfg)"
       "length ts = (if innerWidth h < 768 then trees cfg div 2 else trees cfg)"
       "\<forall>t\<in>set ts. s_type t = ''tree''"
       "length ws = (if innerWidth h < 768 then wreaths cfg div 2 else wreaths cfg)"
       "\<forall>w\<in>set ws. s_type w = ''wreath''"
    by blast
  have t: "filter (\<lambda>p. s_type p = ''tree'') (ts @ ws) = ts"
    using *(4,6) by simp
  have w: "filter (\<lambda>p. s_type p = ''wreath'') (ts @ ws) = ws"
    using *(4,6) by simp
  show ?thesis
    using *(1,2,3,5) t w by simp
qed

theorem C5_population_counts_witness:
  "INTENSITY_CONFIG (intensity (createCanvas phone (constructor no_options)))
     = Some \<lparr>count = 150, speedRange = (0.8, 2.5), sizeRange = (1, 4), trees = 10, wreaths = 6\<rparr>
   \<and> canvas (createCanvas phone (constructor no_options)) \<noteq> None
   \<and> (\<exists>s'. createParticles phone half (createCanvas phone (constructor no_options)) = Inr s'
         \<and> length (particles s') = 75
         \<and> length (filter (\<lambda>p. s_type p = ''tree'') (specialParticles s')) = 5
         \<and> length (filter (\<lambda>p. s_type p = ''wreath'') (specialParticles s')) = 3)"
proof -
  have a: "INTENSITY_CONFIG (intensity (createCanvas phone (constructor no_options)))
     = Some \<lparr>count = 150, speedRange = (0.8, 2.5), sizeRange = (1, 4), trees = 10, wreaths = 6\<rparr>"
    by (simp add: createCanvas_def resizeCanvas_def constructor_def no_options_def INTENSITY_CONFIG_def)
  have b: "canvas (createCanvas phone (constructor no_options)) \<noteq> None"
    by (simp add: createCanvas_def resizeCanvas_def)
  from C5_population_counts [OF a b, of phone half]
  show ?thesis using a b by (auto simp: phone_def)
qed

subsection \<open>Drift particles\<close>

lemma p_y_applyMotion:
  "p_y (applyMotion gust deltaTime p) = p_y p + p_speed p * (deltaTime / (1000 / 60))"
  by (simp add: applyMotion_def Let_def)

lemma p_x_applyMotion:
  "p_x (applyMotion gust deltaTime p) =
     p_x p + (sin (p_windOffset p + p_windSpeed p * (deltaTime / (1000 / 60))) * 0.5 + gust)
             * (deltaTime / (1000 / 60))"
  by (simp add: applyMotion_def Let_def)

lemma fst_updateParticle:
  "fst (updateParticle c gust deltaTime p r) =
     wrapHorizontally c (fst (recycleAtBottom c (applyMotion gust deltaTime p) r))"
  by (simp add: updateParticle_def split: prod.splits)

lemma p_y_wrapHorizontally: "p_y (wrapHorizontally c q) = p_y q"
  by (simp add: wrapHorizontally_def)

lemma snd_updateParticle:
  "snd (updateParticle c gust deltaTime p r) = snd (recycleAtBottom c (applyMotion gust deltaTime p) r)"
  by (simp add: updateParticle_def split: prod.splits)

text \<open>
  Claim C6 says that on the frame where y passes height + 10 the new x lies in
  [0, width).  On a canvas of width 0 (a window whose \<open>innerWidth\<close> is 0) the new x is
  \<open>Math.random() * 0\<close>, which is 0 and not below the width.
\<close>

theorem C6_zero_width_counterexample:
  "0 < p_speed (flake\<lparr>p_y := 730\<rparr>) \<and> (0::real) < 50 / 3 \<and> Math_random_range half
   \<and> p_y (flake\<lparr>p_y := 730\<rparr>) + p_speed (flake\<lparr>p_y := 730\<rparr>) * ((50 / 3) / (1000 / 60))
        > real (height zero_width) + 10
   \<and> p_x (fst (updateParticle zero_width 0 (50 / 3) (flake\<lparr>p_y := 730\<rparr>) half)) = 0
   \<and> \<not> p_x (fst (updateParticle zero_width 0 (50 / 3) (flake\<lparr>p_y := 730\<rparr>) half))
         < real (width zero_width)"
  by (simp add: fst_updateParticle recycleAtBottom_def p_y_applyMotion wrapHorizontally_def
        flake_def zero_width_def half_def Math_random_range_def)

text \<open>
  Claim C6, amended: a drift particle with positive speed and one frame with positive
  elapsed time.  If the advanced y stays at or below height + 10, the frame leaves y at
  the advanced value, strictly above the old one, and calls \<open>Math.random()\<close> not at all.
  If the advanced y exceeds height + 10, the frame leaves y at -10 and x at the product
  of one fresh result of \<open>Math.random()\<close> and the width: a value in [0, width], and in
  [0, width) when the width is positive.
\<close>

theorem C6_fall_and_recycle:
  assumes "0 < p_speed p" and "0 < deltaTime" and "Math_random_range r"
  shows "(p_y p + p_speed p * (deltaTime / (1000 / 60)) \<le> real (height c) + 10 \<longrightarrow>
            p_y (fst (updateParticle c gust deltaTime p r))
              = p_y p + p_speed p * (deltaTime / (1000 / 60))
          \<and> p_y p < p_y (fst (updateParticle c gust deltaTime p r))
          \<and> snd (updateParticle c gust deltaTime p r) = r)
       \<and> (p_y p + p_speed p * (deltaTime / (1000 / 60)) > real (height c) + 10 \<longrightarrow>
            p_y (fst (updateParticle c gust deltaTime p r)) = - 10
          \<and> p_x (fst (updateParticle c gust deltaTime p r)) = r 0 * real (width c)
          \<and> snd (updateParticle c gust deltaTime p r) = drop_rand 1 r
          \<and> 0 \<le> p_x (fst (updateParticle c gust deltaTime p r))
          \<and> p_x (fst (updateParticle c gust deltaTime p r)) \<le> real (width c)
          \<and> (0 < width c \<longrightarrow> p_x (fst (updateParticle c gust deltaTime p r)) < real (width c)))"
proof -
  let ?q = "applyMotion gust deltaTime p"
  have pos: "0 < p_speed p * (deltaTime / (1000 / 60))"
    using assms(1,2) by simp
  have r0: "0 \<le> r 0" "r 0 < 1"
    using assms(3) by (simp_all add: Math_random_range_def)
  have x0: "0 \<le> r 0 * real (width c)" using r0(1) by simp
  have x1: "r 0 * real (width c) \<le> real (width c)"
    using r0(2) mult_right_mono[of "r 0" 1 "real (width c)"] by simp
  have x2: "r 0 * real (width c) < real (width c)" if "0 < width c"
    using r0(2) that by simp
  have stay: "p_y (fst (updateParticle c gust deltaTime p r))
              = p_y p + p_speed p * (deltaTime / (1000 / 60))
          \<and> p_y p < p_y (fst (updateParticle c gust deltaTime p r))
          \<and> snd (updateParticle c gust deltaTime p r) = r"
    if "p_y p + p_speed p * (deltaTime / (1000 / 60)) \<le> real (height c) + 10"
    using that pos
    by (simp add: fst_updateParticle snd_updateParticle p_y_wrapHorizontally recycleAtBottom_def
          p_y_applyMotion)
  have recycled: "fst (updateParticle c gust deltaTime p r)
        = ?q\<lparr>p_y := - 10, p_x := r 0 * real (width c)\<rparr>
      \<and> snd (updateParticle c gust deltaTime p r) = drop_rand 1 r"
    if "p_y p + p_speed p * (deltaTime / (1000 / 60)) > real (height c) + 10"
    using that x0 x1
    by (simp add: fst_updateParticle snd_updateParticle recycleAtBottom_def p_y_applyMotion
          wrapHorizontally_def)
  show ?thesis
    using stay recycled x0 x1 x2 by auto
qed

theorem C6_fall_and_recycle_witness:
  "0 < p_speed flake \<and> (0::real) < 50 / 3 \<and> Math_random_range half
   \<and> p_y (fst (updateParticle viewport 0 (50 / 3) flake half)) = 51
   \<and> p_y flake < p_y (fst (updateParticle viewport 0 (50 / 3) flake half))
   \<and> p_y (fst (updateParticle viewport 0 (50 / 3) (flake\<lparr>p_y := 730\<rparr>) half)) = - 10
   \<and> p_x (fst (updateParticle viewport 0 (50 / 3) (flake\<lparr>p_y := 730\<rparr>) half)) = 640
   \<and> snd (updateParticle viewport 0 (50 / 3) (flake\<lparr>p_y := 730\<rparr>) half) = drop_rand 1 half
   \<and> p_x (fst (updateParticle viewport 0 (50 / 3) (flake\<lparr>p_y := 730\<rparr>) half)) < 1280"
proof -
  have a: "0 < p_speed flake" "0 < p_speed (flake\<lparr>p_y := 730\<rparr>)" by (simp_all add: flake_def)
  have b: "(0::real) < 50 / 3" by simp
  have c: "Math_random_range half" by (simp add: Math_random_range_def half_def)
  from C6_fall_and_recycle [OF a(1) b c, of viewport 0]
       C6_fall_and_recycle [OF a(2) b c, of viewport 0]
  show ?thesis using a b c by (simp add: flake_def viewport_def half_def)
qed

text \<open>
  Claim C7 says that a particle that leaves at x < -10 has its x set to width + 10.  The
  recycle step runs before the wrap test: a particle whose motion takes it below -10 and
  past the bottom in the same frame gets a fresh random x, here 640, and is not wrapped.
\<close>

theorem C7_recycle_first_counterexample:
  "p_x (applyMotion (- 3 / 2) (50 / 3) (flake\<lparr>p_x := - 19 / 2, p_y := 1459 / 2\<rparr>)) = - 11
   \<and> p_x (applyMotion (- 3 / 2) (50 / 3) (flake\<lparr>p_x := - 19 / 2, p_y := 1459 / 2\<rparr>)) < - 10
   \<and> p_x (fst (updateParticle viewport (- 3 / 2) (50 / 3)
             (flake\<lparr>p_x := - 19 / 2, p_y := 1459 / 2\<rparr>) half)) = 640
   \<and> p_x (fst (updateParticle viewport (- 3 / 2) (50 / 3)
             (flake\<lparr>p_x := - 19 / 2, p_y := 1459 / 2\<rparr>) half)) \<noteq> real (width viewport) + 10"
  by (simp add: fst_updateParticle recycleAtBottom_def p_y_applyMotion p_x_applyMotion
        wrapHorizontally_def flake_def viewport_def half_def)

text \<open>
  Claim C7, amended: in a frame that does not recycle the particle (the advanced y is at
  most height + 10), the wrap is exact and symmetric on the x that motion gives: below
  -10 the frame leaves x at exactly width + 10, above width + 10 it leaves x at exactly
  -10, and in between it leaves x where motion put it.
\<close>

theorem C7_horizontal_wrap:
  assumes "p_y (applyMotion gust deltaTime p) \<le> real (height c) + 10"
  shows "p_x (applyMotion gust deltaTime p)
           = p_x p + (sin (p_windOffset p + p_windSpeed p * (deltaTime / (1000 / 60))) * 0.5 + gust)
                     * (deltaTime / (1000 / 60))
       \<and> (p_x (applyMotion gust deltaTime p) < - 10 \<longrightarrow>
            p_x (fst (updateParticle c gust deltaTime p r)) = real (width c) + 10)
       \<and> (p_x (applyMotion gust deltaTime p) > real (width c) + 10 \<longrightarrow>
            p_x (fst (updateParticle c gust deltaTime p r)) = - 10)
       \<and> (- 10 \<le> p_x (applyMotion gust deltaTime p)
            \<and> p_x (applyMotion gust deltaTime p) \<le> real (width c) + 10 \<longrightarrow>
            p_x (fst (updateParticle c gust deltaTime p r)) = p_x (applyMotion gust deltaTime p))"
  using assms
  by (simp add: fst_updateParticle wrapHorizontally_def recycleAtBottom_def p_x_applyMotion)

theorem C7_horizontal_wrap_witness:
  "p_y (applyMotion (- 2) (50 / 3) (flake\<lparr>p_x := - 9\<rparr>)) \<le> real (height viewport) + 10
   \<and> p_x (applyMotion (- 2) (50 / 3) (flake\<lparr>p_x := - 9\<rparr>)) = - 11
   \<and> p_x (fst (updateParticle viewport (- 2) (50 / 3) (flake\<lparr>p_x := - 9\<rparr>) half)) = 1290
   \<and> p_y (applyMotion 2 (50 / 3) (flake\<lparr>p_x := 1289\<rparr>)) \<le> real (height viewport) + 10
   \<and> p_x (applyMotion 2 (50 / 3) (flake\<lparr>p_x := 1289\<rparr>)) = 1291
   \<and> p_x (fst (updateParticle viewport 2 (50 / 3) (flake\<lparr>p_x := 1289\<rparr>) half)) = - 10"
proof -
  have y: "p_y (applyMotion (- 2) (50 / 3) (flake\<lparr>p_x := - 9\<rparr>)) \<le> real (height viewport) + 10"
     "p_y (applyMotion 2 (50 / 3) (flake\<lparr>p_x := 1289\<rparr>)) \<le> real (height viewport) + 10"
    by (simp_all add: p_y_applyMotion flake_def viewport_def)
  have x: "p_x (applyMotion (- 2) (50 / 3) (flake\<lparr>p_x := - 9\<rparr>)) = - 11"
     "p_x (applyMotion 2 (50 / 3) (flake\<lparr>p_x := 1289\<rparr>)) = 1291"
    by (simp_all add: p_x_applyMotion flake_def)
  from C7_horizontal_wrap [OF y(1), of half] C7_horizontal_wrap [OF y(2), of half]
  show ?thesis using x y by (simp add: viewport_def)
qed

subsection \<open>Properties of binary64 rounding\<close>

text \<open>
  What the wind properties need of the rounding: it is monotone and odd, it keeps the
  sign, it is idempotent (its results are binary64 values), it is off by at most half a
  spacing, and it is within a factor 2 of its argument.  Then its value at the numbers
  of the examples.
\<close>

lemma round_even_of_int [simp]: "round_even (of_int k) = k"
  by (simp add: round_even_def)

lemma round_even_cases:
  "round_even x = \<lfloor>x\<rfloor> \<or> round_even x = \<lfloor>x\<rfloor> + 1"
  by (simp add: round_even_def Let_def)

lemma round_even_unfold:
  obtains f :: int where "of_int f \<le> x" and "x < of_int f + 1" and "\<lfloor>x\<rfloor> = f"
    and "round_even x = (if x - of_int f < 1 / 2 then f
                        else if x - of_int f > 1 / 2 then f + 1
                        else if even f then f else f + 1)"
proof -
  have "of_int \<lfloor>x\<rfloor> \<le> x" "x < of_int \<lfloor>x\<rfloor> + 1" by linarith+
  moreover have "round_even x = (if x - of_int \<lfloor>x\<rfloor> < 1 / 2 then \<lfloor>x\<rfloor>
                        else if x - of_int \<lfloor>x\<rfloor> > 1 / 2 then \<lfloor>x\<rfloor> + 1
                        else if even \<lfloor>x\<rfloor> then \<lfloor>x\<rfloor> else \<lfloor>x\<rfloor> + 1)"
    by (simp add: round_even_def Let_def)
  ultimately show ?thesis using that by blast
qed

lemma round_even_err: "\<bar>of_int (round_even x) - x\<bar> \<le> 1 / 2"
proof -
  obtain f :: int where f: "of_int f \<le> x" "x < of_int f + 1"
    "round_even x = (if x - of_int f < 1 / 2 then f
                        else if x - of_int f > 1 / 2 then f + 1
                        else if even f then f else f + 1)"
    by (rule round_even_unfold)
  show ?thesis
    unfolding f(3) using f(1,2) by (auto simp: abs_if split: if_splits)
qed

lemma round_even_mono: "x \<le> y \<Longrightarrow> round_even x \<le> round_even y"
proof -
  assume xy: "x \<le> y"
  have fl: "\<lfloor>x\<rfloor> \<le> \<lfloor>y\<rfloor>" using xy by (rule floor_mono)
  show ?thesis
  proof (cases "\<lfloor>x\<rfloor> = \<lfloor>y\<rfloor>")
    case True
    then have "x - of_int \<lfloor>x\<rfloor> \<le> y - of_int \<lfloor>y\<rfloor>" using xy by simp
    then show ?thesis using True
      by (auto simp: round_even_def Let_def)
  next
    case False
    then have "\<lfloor>x\<rfloor> + 1 \<le> \<lfloor>y\<rfloor>" using fl by linarith
    moreover have "round_even x \<le> \<lfloor>x\<rfloor> + 1" using round_even_cases[of x] by linarith
    moreover have "\<lfloor>y\<rfloor> \<le> round_even y" using round_even_cases[of y] by linarith
    ultimately show ?thesis by linarith
  qed
qed

lemma round_even_le_int: "x \<le> of_int k \<Longrightarrow> round_even x \<le> k"
  using round_even_mono[of x "of_int k"] by simp

lemma round_even_ge_int: "of_int k \<le> x \<Longrightarrow> k \<le> round_even x"
  using round_even_mono[of "of_int k" x] by simp

lemma round_even_small: "\<bar>x\<bar> \<le> 1 / 2 \<Longrightarrow> round_even x = 0"
proof -
  assume a: "\<bar>x\<bar> \<le> 1 / 2"
  show ?thesis
  proof (cases "0 \<le> x")
    case True
    then have "\<lfloor>x\<rfloor> = 0" using a by (auto simp: floor_eq_iff)
    then show ?thesis using a True by (auto simp: round_even_def Let_def)
  next
    case False
    then have "\<lfloor>x\<rfloor> = - 1" using a by (auto simp: floor_eq_iff)
    then show ?thesis using a False by (auto simp: round_even_def Let_def)
  qed
qed

lemma round_even_twice:
  "0 \<le> x \<Longrightarrow> of_int (round_even x) \<le> 2 * x"
  "x \<le> 0 \<Longrightarrow> 2 * x \<le> of_int (round_even x)"
proof -
  show "of_int (round_even x) \<le> 2 * x" if "0 \<le> x"
  proof (cases "x \<le> 1 / 2")
    case True
    then show ?thesis using that round_even_small[of x] by simp
  next
    case False
    then show ?thesis using round_even_err[of x] by linarith
  qed
  show "2 * x \<le> of_int (round_even x)" if "x \<le> 0"
  proof (cases "- 1 / 2 \<le> x")
    case True
    then show ?thesis using that round_even_small[of x] by simp
  next
    case False
    then show ?thesis using round_even_err[of x] by linarith
  qed
qed

lemma ulp64_pos: "0 < ulp64 x"
  by (simp add: ulp64_def)

lemma log2_bounds:
  assumes "x \<noteq> 0"
  shows "2 powr of_int \<lfloor>log 2 \<bar>x\<bar>\<rfloor> \<le> \<bar>x\<bar>" and "\<bar>x\<bar> < 2 powr of_int (\<lfloor>log 2 \<bar>x\<bar>\<rfloor> + 1)"
  using floor_log_eq_powr_iff[of "\<bar>x\<bar>" 2 "\<lfloor>log 2 \<bar>x\<bar>\<rfloor>"] assms by simp_all

lemma abs_less_exponent64:
  assumes "x \<noteq> 0"
  shows "\<bar>x\<bar> < 2 powr of_int (exponent64 x + 1)"
proof -
  have "\<bar>x\<bar> < 2 powr of_int (\<lfloor>log 2 \<bar>x\<bar>\<rfloor> + 1)" using log2_bounds(2)[OF assms] .
  also have "\<dots> \<le> 2 powr of_int (exponent64 x + 1)"
    by (rule powr_mono) (simp_all add: exponent64_def)
  finally show ?thesis .
qed

lemma exponent64_le_abs:
  assumes "x \<noteq> 0" and "- 1022 \<le> \<lfloor>log 2 \<bar>x\<bar>\<rfloor>"
  shows "2 powr of_int (exponent64 x) \<le> \<bar>x\<bar>"
proof -
  have "exponent64 x = \<lfloor>log 2 \<bar>x\<bar>\<rfloor>"
    unfolding exponent64_def using assms(2) by (rule max_absorb1)
  then show ?thesis using log2_bounds(1)[OF assms(1)] by (simp only:)
qed

lemma exponent64_mono:
  assumes "x \<noteq> 0" and "\<bar>x\<bar> \<le> \<bar>y\<bar>"
  shows "exponent64 x \<le> exponent64 y"
proof -
  have "log 2 \<bar>x\<bar> \<le> log 2 \<bar>y\<bar>" using assms by simp
  then have "\<lfloor>log 2 \<bar>x\<bar>\<rfloor> \<le> \<lfloor>log 2 \<bar>y\<bar>\<rfloor>" by (rule floor_mono)
  then show ?thesis by (simp add: exponent64_def)
qed

lemma exponent64_ge: "- 1022 \<le> exponent64 x"
  by (simp add: exponent64_def)

lemma exponent64_normal:
  "- 1022 < exponent64 x \<Longrightarrow> - 1022 \<le> \<lfloor>log 2 \<bar>x\<bar>\<rfloor>"
  by (simp add: exponent64_def max_def split: if_splits)

lemma ulp64_times: "ulp64 x * 2 ^ 53 = 2 powr of_int (exponent64 x + 1)"
proof -
  have "(2::real) ^ 53 = 2 powr 53" by simp
  then have "ulp64 x * 2 ^ 53 = 2 powr (of_int (exponent64 x - 52) + 53)"
    unfolding ulp64_def by (simp only: powr_add)
  then show ?thesis by (simp add: algebra_simps)
qed

lemma ulp64_times': "ulp64 x * 2 ^ 52 = 2 powr of_int (exponent64 x)"
proof -
  have "(2::real) ^ 52 = 2 powr 52" by simp
  then have "ulp64 x * 2 ^ 52 = 2 powr (of_int (exponent64 x - 52) + 52)"
    unfolding ulp64_def by (simp only: powr_add)
  then show ?thesis by (simp add: algebra_simps)
qed

lemma binary64_zero [simp]: "binary64 0 = 0"
  by (simp add: binary64_def)

lemma binary64_sign:
  "0 \<le> x \<Longrightarrow> 0 \<le> binary64 x" "x \<le> 0 \<Longrightarrow> binary64 x \<le> 0"
proof -
  show "0 \<le> binary64 x" if "0 \<le> x"
  proof -
    have "0 \<le> x / ulp64 x" using that ulp64_pos[of x] by simp
    then have "0 \<le> round_even (x / ulp64 x)" using round_even_ge_int[of 0] by simp
    then show ?thesis using ulp64_pos[of x] by (simp add: binary64_def)
  qed
  show "binary64 x \<le> 0" if "x \<le> 0"
  proof -
    have "x / ulp64 x \<le> 0" using that ulp64_pos[of x] by (simp add: divide_nonpos_pos)
    then have "round_even (x / ulp64 x) \<le> 0" using round_even_le_int[of _ 0] by simp
    then show ?thesis using ulp64_pos[of x]
      by (simp add: binary64_def mult_nonpos_nonneg)
  qed
qed

lemma binary64_twice:
  "0 \<le> x \<Longrightarrow> binary64 x \<le> 2 * x" "x \<le> 0 \<Longrightarrow> 2 * x \<le> binary64 x"
proof -
  have u: "0 < ulp64 x" by (rule ulp64_pos)
  show "binary64 x \<le> 2 * x" if "0 \<le> x"
  proof (cases "x = 0")
    case False
    have "0 \<le> x / ulp64 x" using that u by simp
    then have "of_int (round_even (x / ulp64 x)) \<le> 2 * (x / ulp64 x)" by (rule round_even_twice)
    then have "of_int (round_even (x / ulp64 x)) * ulp64 x \<le> 2 * (x / ulp64 x) * ulp64 x"
      using u by (simp only: mult_le_cancel_right_pos)
    then show ?thesis using u False by (simp add: binary64_def)
  qed simp
  show "2 * x \<le> binary64 x" if "x \<le> 0"
  proof (cases "x = 0")
    case False
    have "x / ulp64 x \<le> 0" using that u by (simp add: divide_nonpos_pos)
    then have "2 * (x / ulp64 x) \<le> of_int (round_even (x / ulp64 x))" by (rule round_even_twice)
    then have "2 * (x / ulp64 x) * ulp64 x \<le> of_int (round_even (x / ulp64 x)) * ulp64 x"
      using u by (simp only: mult_le_cancel_right_pos)
    then show ?thesis using u False by (simp add: binary64_def)
  qed simp
qed

lemma binary64_err: "\<bar>binary64 x - x\<bar> \<le> ulp64 x / 2"
proof (cases "x = 0")
  case True
  then show ?thesis using ulp64_pos[of 0] by simp
next
  case False
  have u: "0 < ulp64 x" by (rule ulp64_pos)
  have "binary64 x - x = (of_int (round_even (x / ulp64 x)) - x / ulp64 x) * ulp64 x"
    using False u by (simp add: binary64_def algebra_simps)
  then have "\<bar>binary64 x - x\<bar> = \<bar>of_int (round_even (x / ulp64 x)) - x / ulp64 x\<bar> * ulp64 x"
    using u by (simp add: abs_mult)
  also have "\<dots> \<le> (1 / 2) * ulp64 x"
    using round_even_err[of "x / ulp64 x"] u by (simp only: mult_le_cancel_right_pos)
  finally show ?thesis by simp
qed

lemma mult_ulp_mono:
  "a \<le> b \<Longrightarrow> a * ulp64 x \<le> b * ulp64 x"
  using ulp64_pos[of x] by (simp only: mult_le_cancel_right_pos)

lemma binary64_upper:
  assumes "0 < x"
  shows "binary64 x \<le> 2 powr of_int (exponent64 x + 1)"
proof -
  define K :: real where "K = 2 ^ 53"
  have Ki: "K = of_int (2 ^ 53)" by (simp add: K_def)
  have ut: "ulp64 x * K = 2 powr of_int (exponent64 x + 1)"
    unfolding K_def by (rule ulp64_times)
  have u: "0 < ulp64 x" by (rule ulp64_pos)
  have "\<bar>x\<bar> < ulp64 x * K" using abs_less_exponent64[of x] assms by (simp only: ut)
  then have "x < K * ulp64 x" using assms by (simp add: mult.commute)
  then have "x / ulp64 x \<le> K" using u by (simp add: pos_divide_le_eq)
  then have "round_even (x / ulp64 x) \<le> 2 ^ 53" unfolding Ki by (rule round_even_le_int)
  then have "(of_int (round_even (x / ulp64 x)) :: real) \<le> of_int (2 ^ 53)"
    by (simp only: of_int_le_iff)
  then have "of_int (round_even (x / ulp64 x)) * ulp64 x \<le> K * ulp64 x"
    unfolding Ki by (rule mult_ulp_mono)
  then have "binary64 x \<le> ulp64 x * K" using assms by (simp add: binary64_def mult.commute)
  then show ?thesis by (simp only: ut)
qed

lemma binary64_lower:
  assumes "0 < x" and "- 1022 \<le> \<lfloor>log 2 \<bar>x\<bar>\<rfloor>"
  shows "2 powr of_int (exponent64 x) \<le> binary64 x"
proof -
  define K :: real where "K = 2 ^ 52"
  have Ki: "K = of_int (2 ^ 52)" by (simp add: K_def)
  have ut: "ulp64 x * K = 2 powr of_int (exponent64 x)"
    unfolding K_def by (rule ulp64_times')
  have u: "0 < ulp64 x" by (rule ulp64_pos)
  have "x \<noteq> 0" using assms(1) by simp
  from exponent64_le_abs[OF this assms(2)]
  have "ulp64 x * K \<le> \<bar>x\<bar>" by (simp only: ut)
  then have "K * ulp64 x \<le> x" using assms by (simp add: mult.commute)
  then have "K \<le> x / ulp64 x" using u by (simp add: pos_le_divide_eq)
  then have "2 ^ 52 \<le> round_even (x / ulp64 x)" unfolding Ki by (rule round_even_ge_int)
  then have "of_int (2 ^ 52) \<le> (of_int (round_even (x / ulp64 x)) :: real)"
    by (simp only: of_int_le_iff)
  then have "K * ulp64 x \<le> of_int (round_even (x / ulp64 x)) * ulp64 x"
    unfolding Ki by (rule mult_ulp_mono)
  then have "ulp64 x * K \<le> binary64 x" using assms by (simp add: binary64_def mult.commute)
  then show ?thesis by (simp only: ut)
qed

lemma binary64_upper_neg:
  assumes "x < 0"
  shows "- (2 powr of_int (exponent64 x + 1)) \<le> binary64 x"
proof -
  define K :: real where "K = 2 ^ 53"
  have Ki: "- K = of_int (- (2 ^ 53))" by (simp add: K_def)
  have ut: "ulp64 x * K = 2 powr of_int (exponent64 x + 1)"
    unfolding K_def by (rule ulp64_times)
  have u: "0 < ulp64 x" by (rule ulp64_pos)
  have "\<bar>x\<bar> < ulp64 x * K" using abs_less_exponent64[of x] assms by (simp only: ut)
  then have "(- K) * ulp64 x < x" using assms by (simp add: mult.commute)
  then have "- K \<le> x / ulp64 x" using u by (simp add: pos_le_divide_eq)
  then have "- (2 ^ 53) \<le> round_even (x / ulp64 x)" unfolding Ki by (rule round_even_ge_int)
  then have "of_int (- (2 ^ 53)) \<le> (of_int (round_even (x / ulp64 x)) :: real)"
    by (simp only: of_int_le_iff)
  then have "(- K) * ulp64 x \<le> of_int (round_even (x / ulp64 x)) * ulp64 x"
    unfolding Ki by (rule mult_ulp_mono)
  then have "- (ulp64 x * K) \<le> binary64 x" using assms by (simp add: binary64_def mult.commute)
  then show ?thesis by (simp only: ut)
qed

lemma binary64_lower_neg:
  assumes "x < 0" and "- 1022 \<le> \<lfloor>log 2 \<bar>x\<bar>\<rfloor>"
  shows "binary64 x \<le> - (2 powr of_int (exponent64 x))"
proof -
  define K :: real where "K = 2 ^ 52"
  have Ki: "- K = of_int (- (2 ^ 52))" by (simp add: K_def)
  have ut: "ulp64 x * K = 2 powr of_int (exponent64 x)"
    unfolding K_def by (rule ulp64_times')
  have u: "0 < ulp64 x" by (rule ulp64_pos)
  have "x \<noteq> 0" using assms(1) by simp
  from exponent64_le_abs[OF this assms(2)]
  have "ulp64 x * K \<le> \<bar>x\<bar>" by (simp only: ut)
  then have "x \<le> (- K) * ulp64 x" using assms by (simp add: mult.commute)
  then have "x / ulp64 x \<le> - K" using u by (simp add: pos_divide_le_eq)
  then have "round_even (x / ulp64 x) \<le> - (2 ^ 52)" unfolding Ki by (rule round_even_le_int)
  then have "(of_int (round_even (x / ulp64 x)) :: real) \<le> of_int (- (2 ^ 52))"
    by (simp only: of_int_le_iff)
  then have "of_int (round_even (x / ulp64 x)) * ulp64 x \<le> (- K) * ulp64 x"
    unfolding Ki by (rule mult_ulp_mono)
  then have "binary64 x \<le> - (ulp64 x * K)" using assms by (simp add: binary64_def mult.commute)
  then show ?thesis by (simp only: ut)
qed

lemma binary64_same_exponent:
  assumes "x \<le> y" and "exponent64 x = exponent64 y" and "x \<noteq> 0" and "y \<noteq> 0"
  shows "binary64 x \<le> binary64 y"
proof -
  have u: "ulp64 x = ulp64 y" using assms(2) by (simp add: ulp64_def)
  have "x / ulp64 y \<le> y / ulp64 y"
    using assms(1) ulp64_pos[of y] by (simp add: divide_right_mono)
  then have "round_even (x / ulp64 y) \<le> round_even (y / ulp64 y)" by (rule round_even_mono)
  then have "(of_int (round_even (x / ulp64 y)) :: real) \<le> of_int (round_even (y / ulp64 y))"
    by (simp only: of_int_le_iff)
  then have "of_int (round_even (x / ulp64 y)) * ulp64 y \<le> of_int (round_even (y / ulp64 y)) * ulp64 y"
    by (rule mult_ulp_mono)
  then show ?thesis using assms(3,4) u by (simp add: binary64_def)
qed

lemma binary64_mono_pos:
  assumes "0 < x" and "x \<le> y"
  shows "binary64 x \<le> binary64 y"
proof -
  have y: "0 < y" using assms by simp
  have le: "exponent64 x \<le> exponent64 y"
    using exponent64_mono[of x y] assms by simp
  show ?thesis
  proof (cases "exponent64 x = exponent64 y")
    case True
    then show ?thesis using binary64_same_exponent[OF assms(2) True] assms(1) y by simp
  next
    case False
    then have lt: "exponent64 x + 1 \<le> exponent64 y" using le by simp
    then have "- 1022 < exponent64 y" using exponent64_ge[of x] by linarith
    then have n: "- 1022 \<le> \<lfloor>log 2 \<bar>y\<bar>\<rfloor>" by (rule exponent64_normal)
    have "binary64 x \<le> 2 powr of_int (exponent64 x + 1)" using assms(1) by (rule binary64_upper)
    also have "\<dots> \<le> 2 powr of_int (exponent64 y)"
      using lt by (intro powr_mono) simp_all
    also have "\<dots> \<le> binary64 y" using y n by (rule binary64_lower)
    finally show ?thesis .
  qed
qed

lemma binary64_mono_neg:
  assumes "y < 0" and "x \<le> y"
  shows "binary64 x \<le> binary64 y"
proof -
  have x: "x < 0" using assms by simp
  have le: "exponent64 y \<le> exponent64 x"
    using exponent64_mono[of y x] assms by simp
  show ?thesis
  proof (cases "exponent64 x = exponent64 y")
    case True
    then show ?thesis using binary64_same_exponent[OF assms(2) True] assms(1) x by simp
  next
    case False
    then have lt: "exponent64 y + 1 \<le> exponent64 x" using le by simp
    then have "- 1022 < exponent64 x" using exponent64_ge[of y] by linarith
    then have n: "- 1022 \<le> \<lfloor>log 2 \<bar>x\<bar>\<rfloor>" by (rule exponent64_normal)
    have "(2::real) powr of_int (exponent64 y + 1) \<le> 2 powr of_int (exponent64 x)"
      using lt by (intro powr_mono) simp_all
    then have "- ((2::real) powr of_int (exponent64 x)) \<le> - (2 powr of_int (exponent64 y + 1))"
      by linarith
    moreover have "binary64 x \<le> - (2 powr of_int (exponent64 x))"
      using x n by (rule binary64_lower_neg)
    moreover have "- (2 powr of_int (exponent64 y + 1)) \<le> binary64 y"
      using assms(1) by (rule binary64_upper_neg)
    ultimately show ?thesis by linarith
  qed
qed

lemma binary64_mono:
  assumes "x \<le> y"
  shows "binary64 x \<le> binary64 y"
proof -
  consider "0 < x" | "y < 0" | "x \<le> 0" "0 \<le> y" by linarith
  then show ?thesis
  proof cases
    case 1
    then show ?thesis using assms by (rule binary64_mono_pos)
  next
    case 2
    then show ?thesis using assms by (rule binary64_mono_neg)
  next
    case 3
    then show ?thesis using binary64_sign(1)[of y] binary64_sign(2)[of x] by linarith
  qed
qed

lemma exponent64_eq:
  assumes "2 powr of_int e \<le> \<bar>x\<bar>" and "\<bar>x\<bar> < 2 powr of_int (e + 1)" and "- 1022 \<le> e"
  shows "exponent64 x = e"
proof -
  have "0 < (2::real) powr of_int e" by simp
  then have "0 < \<bar>x\<bar>" using assms(1) by linarith
  then have "\<lfloor>log 2 \<bar>x\<bar>\<rfloor> = e"
    using floor_log_eq_powr_iff[of "\<bar>x\<bar>" 2 e] assms(1,2) by simp
  then show ?thesis using assms(3) by (simp add: exponent64_def)
qed

lemma binary64_eval:
  assumes "2 powr of_int e \<le> \<bar>x\<bar>" and "\<bar>x\<bar> < 2 powr of_int (e + 1)" and "- 1022 \<le> e"
  shows "binary64 x = of_int (round_even (x / 2 powr of_int (e - 52))) * 2 powr of_int (e - 52)"
proof -
  have "0 < (2::real) powr of_int e" by simp
  then have "x \<noteq> 0" using assms(1) by linarith
  then show ?thesis
    using exponent64_eq[OF assms] by (simp add: binary64_def ulp64_def)
qed

lemma binary64_grid:
  assumes "x = of_int k * ulp64 x"
  shows "binary64 x = x"
proof (cases "x = 0")
  case False
  have "x / ulp64 x = of_int k" using assms ulp64_pos[of x]
    by (metis nonzero_eq_divide_eq less_irrefl)
  then have "round_even (x / ulp64 x) = k" by simp
  then show ?thesis using False assms by (simp add: binary64_def)
qed simp

lemma round_even_minus: "round_even (- x) = - round_even x"
proof (cases "x = of_int \<lfloor>x\<rfloor>")
  case True
  then have "- x = of_int (- \<lfloor>x\<rfloor>)" by simp
  then have "round_even (- x) = - \<lfloor>x\<rfloor>" by (simp only: round_even_of_int)
  moreover have "round_even x = \<lfloor>x\<rfloor>" using True by (metis round_even_of_int)
  ultimately show ?thesis by simp
next
  case False
  define f where "f = \<lfloor>x\<rfloor>"
  have b: "of_int f < x" "x < of_int f + 1"
    using False unfolding f_def by linarith+
  have fm: "\<lfloor>- x\<rfloor> = - f - 1"
    using b by (simp add: floor_eq_iff)
  have rx: "round_even x = (if x - of_int f < 1 / 2 then f
                        else if x - of_int f > 1 / 2 then f + 1
                        else if even f then f else f + 1)"
    by (simp add: round_even_def Let_def f_def)
  have rm: "round_even (- x) = (if - x - of_int (- f - 1) < 1 / 2 then - f - 1
                        else if - x - of_int (- f - 1) > 1 / 2 then - f - 1 + 1
                        else if even (- f - 1) then - f - 1 else - f - 1 + 1)"
    by (simp only: round_even_def Let_def fm)
  show ?thesis
    unfolding rx rm using b by (auto split: if_splits)
qed

lemma exponent64_minus [simp]: "exponent64 (- x) = exponent64 x"
  by (simp add: exponent64_def)

lemma ulp64_minus [simp]: "ulp64 (- x) = ulp64 x"
  by (simp add: ulp64_def)

lemma binary64_minus: "binary64 (- x) = - binary64 x"
  by (simp add: binary64_def round_even_minus)

lemma exponent64_subnormal:
  assumes "y \<noteq> 0" and "\<bar>y\<bar> < 2 powr of_int (- 1021)"
  shows "exponent64 y = - 1022"
proof -
  have "log 2 \<bar>y\<bar> < of_int (- 1021)"
    using assms by (simp add: less_powr_iff)
  then have "\<lfloor>log 2 \<bar>y\<bar>\<rfloor> < - 1021" by (simp only: floor_less_iff)
  then show ?thesis by (simp add: exponent64_def)
qed

lemma exponent64_binary64_pos:
  assumes "0 < x" and "binary64 x \<noteq> 0" and "binary64 x < 2 powr of_int (exponent64 x + 1)"
  shows "exponent64 (binary64 x) = exponent64 x"
proof (cases "- 1022 \<le> \<lfloor>log 2 \<bar>x\<bar>\<rfloor>")
  case True
  have p: "0 \<le> binary64 x" using assms(1) binary64_sign(1)[of x] by simp
  have "2 powr of_int (exponent64 x) \<le> binary64 x" using assms(1) True by (rule binary64_lower)
  then show ?thesis
    using exponent64_eq[of "exponent64 x" "binary64 x"] assms(3) p exponent64_ge[of x] by simp
next
  case False
  then have e: "exponent64 x = - 1022" by (simp add: exponent64_def)
  have p: "0 \<le> binary64 x" using assms(1) binary64_sign(1)[of x] by simp
  have "\<bar>binary64 x\<bar> < 2 powr of_int (- 1021)" using assms(3) p unfolding e by simp
  then show ?thesis using exponent64_subnormal[OF assms(2)] e by simp
qed

lemma binary64_idem_pos:
  assumes "0 < x"
  shows "binary64 (binary64 x) = binary64 x"
proof (cases "binary64 x = 0")
  case True
  then show ?thesis by simp
next
  case False
  define y where "y = binary64 x"
  define n where "n = round_even (x / ulp64 x)"
  have yn: "y = of_int n * ulp64 x" using assms by (simp add: y_def n_def binary64_def)
  have up: "y \<le> 2 powr of_int (exponent64 x + 1)"
    unfolding y_def using assms by (rule binary64_upper)
  show ?thesis
  proof (cases "y = 2 powr of_int (exponent64 x + 1)")
    case True
    have "(2::real) powr of_int (exponent64 x + 1) < 2 powr of_int (exponent64 x + 1 + 1)"
      by (intro powr_less_mono) simp_all
    then have "exponent64 y = exponent64 x + 1"
      using exponent64_eq[of "exponent64 x + 1" y] True exponent64_ge[of x] by simp
    then have "ulp64 y = 2 powr (of_int (exponent64 x - 52) + 1)"
      by (simp add: ulp64_def algebra_simps)
    then have uy: "ulp64 y = ulp64 x * 2" by (simp only: powr_add ulp64_def) simp
    have "y = ulp64 x * 2 ^ 53" using True ulp64_times[of x] by simp
    also have "\<dots> = of_int (2 ^ 52) * (ulp64 x * 2)" by simp
    finally have e: "y = of_int (2 ^ 52) * (ulp64 x * 2)" .
    have "y = of_int (2 ^ 52) * ulp64 y" by (subst uy) (rule e)
    then have "binary64 y = y" by (rule binary64_grid)
    then show ?thesis by (simp add: y_def)
  next
    case F2: False
    then have "y < 2 powr of_int (exponent64 x + 1)" using up by simp
    then have "exponent64 y = exponent64 x"
      using exponent64_binary64_pos[OF assms] False by (simp add: y_def)
    then have "ulp64 y = ulp64 x" by (simp add: ulp64_def)
    then have "y = of_int n * ulp64 y" using yn by simp
    then have "binary64 y = y" by (rule binary64_grid)
    then show ?thesis by (simp add: y_def)
  qed
qed

lemma binary64_idem: "binary64 (binary64 x) = binary64 x"
proof -
  consider "0 < x" | "x = 0" | "x < 0" by linarith
  then show ?thesis
  proof cases
    case 1
    then show ?thesis by (rule binary64_idem_pos)
  next
    case 2
    then show ?thesis by simp
  next
    case 3
    then have "binary64 (binary64 (- x)) = binary64 (- x)" by (intro binary64_idem_pos) simp
    then show ?thesis by (simp add: binary64_minus)
  qed
qed

lemma binary64_err_bound:
  assumes "\<bar>x\<bar> \<le> 2 powr of_int k" and "- 1022 \<le> k"
  shows "\<bar>binary64 x - x\<bar> \<le> 2 powr of_int (k - 53)"
proof (cases "x = 0")
  case True
  then show ?thesis by simp
next
  case False
  have "log 2 \<bar>x\<bar> \<le> of_int k"
    using assms(1) False by (simp add: le_powr_iff)
  then have "\<lfloor>log 2 \<bar>x\<bar>\<rfloor> \<le> k" by (simp add: floor_le_iff) 
  then have "exponent64 x \<le> k" using assms(2) by (simp add: exponent64_def)
  then have "ulp64 x \<le> 2 powr of_int (k - 52)"
    unfolding ulp64_def by (intro powr_mono) simp_all
  moreover have "(2::real) powr of_int (k - 52) = 2 * 2 powr of_int (k - 53)"
  proof -
    have "(2::real) powr of_int (k - 52) = 2 powr (of_int (k - 53) + 1)" by (simp add: algebra_simps)
    also have "\<dots> = 2 powr of_int (k - 53) * 2 powr 1" by (rule powr_add)
    finally show ?thesis by simp
  qed
  ultimately show ?thesis using binary64_err[of x] by linarith
qed

lemma powr_neg_numeral2: "(2::real) powr (- numeral n) = 1 / 2 ^ numeral n"
  by (simp add: powr_minus_divide)

lemma binary64_exact:
  assumes "2 powr of_int e \<le> \<bar>x\<bar>" and "\<bar>x\<bar> < 2 powr of_int (e + 1)" and "- 1022 \<le> e"
    and "x = of_int k * 2 powr of_int (e - 52)"
  shows "binary64 x = x"
proof -
  have "ulp64 x = 2 powr of_int (e - 52)"
    using exponent64_eq[OF assms(1,2,3)] by (simp add: ulp64_def)
  then have "x = of_int k * ulp64 x" using assms(4) by simp
  then show ?thesis by (rule binary64_grid)
qed

lemma binary64_2 [simp]: "binary64 2 = 2"
  by (rule binary64_exact[where e = 1 and k = "2 ^ 52"]) (simp_all add: powr_neg_numeral2)

lemma binary64_half [simp]: "binary64 (1 / 2) = 1 / 2"
  by (rule binary64_exact[where e = "- 1" and k = "2 ^ 52"]) (simp_all add: powr_neg_numeral2)

lemma binary64_1 [simp]: "binary64 1 = 1"
  by (rule binary64_exact[where e = 0 and k = "2 ^ 52"]) (simp_all add: powr_neg_numeral2)

lemma binary64_quarter: "binary64 (1 / 4) = 1 / 4"
  by (rule binary64_exact[where e = "- 2" and k = "2 ^ 52"]) (simp_all add: powr_neg_numeral2)

lemma binary64_0_02: "binary64 0.02 = 5764607523034235 / 288230376151711744"
proof -
  have "binary64 0.02
      = of_int (round_even (0.02 / 2 powr of_int (- 6 - 52))) * 2 powr of_int (- 6 - 52)"
    by (rule binary64_eval) (simp_all add: powr_neg_numeral2)
  also have "0.02 / 2 powr of_int (- 6 - 52) = (288230376151711744 / 50 :: real)"
    by (simp add: powr_neg_numeral2)
  also have "round_even (288230376151711744 / 50) = 5764607523034235"
    by (simp add: round_even_def Let_def)
  finally show ?thesis by (simp add: powr_neg_numeral2)
qed

lemma binary64_c: "binary64 (5764607523034235 / 288230376151711744) = 5764607523034235 / 288230376151711744"
  by (rule binary64_exact[where e = "- 6" and k = "5764607523034235"]) (simp_all add: powr_neg_numeral2)

lemma binary64_20000: "binary64 20000 = 20000"
  by (rule binary64_exact[where e = 14 and k = "20000 * 2 ^ 38"]) (simp_all add: powr_neg_numeral2)

lemma binary64_7500: "binary64 7500 = 7500"
  by (rule binary64_exact[where e = 12 and k = "7500 * 2 ^ 40"]) (simp_all add: powr_neg_numeral2)

lemma binary64_12500: "binary64 12500 = 12500"
  by (rule binary64_exact[where e = 13 and k = "12500 * 2 ^ 39"]) (simp_all add: powr_neg_numeral2)

text \<open>
  The roundings of the second and third frame of the example; two of them are ties, which
  go to the even significand.  The values are those an IEEE 754 implementation computes.
\<close>

lemma binary64_eval_num:
  assumes "2 powr of_int e \<le> \<bar>x\<bar>" and "\<bar>x\<bar> < 2 powr of_int (e + 1)" and "- 1022 \<le> e"
    and "x / 2 powr of_int (e - 52) = q" and "round_even q = k"
  shows "binary64 x = of_int k * 2 powr of_int (e - 52)"
  using binary64_eval[OF assms(1,2,3)] assms(4,5) by simp

lemma binary64_16: "binary64 16 = 16"
  by (rule binary64_exact[where e = 4 and k = "2 ^ 52"]) (simp_all add: powr_neg_numeral2)

lemma binary64_32: "binary64 32 = 32"
  by (rule binary64_exact[where e = 5 and k = "2 ^ 52"]) (simp_all add: powr_neg_numeral2)

lemma frame2_d: "binary64 (1 - gust1) = 2206763817411543 / 2251799813685248"
proof -
  have "binary64 (1 - gust1) = of_int 8827055269646172 * 2 powr of_int (- 1 - 52)"
    by (rule binary64_eval_num[where q = "282465768628677509 / 32"])
       (simp_all add: gust1_def powr_neg_numeral2 round_even_def Let_def)
  then show ?thesis by (simp add: powr_neg_numeral2)
qed

lemma frame2_m:
  "binary64 (2206763817411543 / 2251799813685248 * gust1) = 2824657686286775 / 144115188075855872"
proof -
  have "binary64 (2206763817411543 / 2251799813685248 * gust1)
      = of_int 5649315372573550 * 2 powr of_int (- 6 - 52)"
    by (rule binary64_eval_num[where q = "12721127303410327724127073174605 / 2251799813685248"])
       (simp_all add: gust1_def powr_neg_numeral2 round_even_def Let_def)
  then show ?thesis by (simp add: powr_neg_numeral2)
qed

lemma frame2_g: "binary64 (gust1 + 2824657686286775 / 144115188075855872) = gust2"
proof -
  have "binary64 (gust1 + 2824657686286775 / 144115188075855872)
      = of_int 5706961447803892 * 2 powr of_int (- 5 - 52)"
    by (rule binary64_eval_num[where q = "11413922895607785 / 2"])
       (simp_all add: gust1_def powr_neg_numeral2 round_even_def Let_def)
  then show ?thesis by (simp add: powr_neg_numeral2 gust2_def)
qed

lemma frame3_d: "binary64 (1 - gust2) = 8650514164253249 / 9007199254740992"
proof -
  have "binary64 (1 - gust2) = of_int 8650514164253249 * 2 powr of_int (- 1 - 52)"
    by (rule binary64_eval_num[where q = "34602056657012995 / 4"])
       (simp_all add: gust2_def powr_neg_numeral2 round_even_def Let_def)
  then show ?thesis by (simp add: powr_neg_numeral2)
qed

lemma frame3_m:
  "binary64 (8650514164253249 / 9007199254740992 * gust1) = 5536329065122079 / 288230376151711744"
proof -
  have "binary64 (8650514164253249 / 9007199254740992 * gust1)
      = of_int 5536329065122079 * 2 powr of_int (- 6 - 52)"
    by (rule binary64_eval_num[where q = "49866819029368487215005436979515 / 9007199254740992"])
       (simp_all add: gust1_def powr_neg_numeral2 round_even_def Let_def)
  then show ?thesis by (simp add: powr_neg_numeral2)
qed

lemma frame3_g: "binary64 (gust2 + 5536329065122079 / 288230376151711744) = gust3"
proof -
  have "binary64 (gust2 + 5536329065122079 / 288230376151711744)
      = of_int 8475125980364932 * 2 powr of_int (- 5 - 52)"
    by (rule binary64_eval_num[where q = "16950251960729863 / 2"])
       (simp_all add: gust2_def powr_neg_numeral2 round_even_def Let_def)
  then show ?thesis by (simp add: powr_neg_numeral2 gust3_def)
qed

lemma step64_real_between:
  fixes g T :: real
  shows "min g T \<le> g + binary64 (binary64 (T - g) * binary64 0.02)"
    and "g + binary64 (binary64 (T - g) * binary64 0.02) \<le> max g T"
proof -
  define c :: real where "c = binary64 0.02"
  define d where "d = binary64 (T - g)"
  define m where "m = binary64 (d * c)"
  have c: "0 \<le> c" "c \<le> 1 / 4" unfolding c_def binary64_0_02 by simp_all
  have "min g T \<le> g + m \<and> g + m \<le> max g T"
  proof (cases "g \<le> T")
    case True
    then have d: "0 \<le> d" "d \<le> 2 * (T - g)"
      using binary64_sign(1)[of "T - g"] binary64_twice(1)[of "T - g"] by (simp_all add: d_def)
    have dc: "0 \<le> d * c" using d(1) c(1) by simp
    define p where "p = d * c"
    have "p \<le> d / 4" unfolding p_def using mult_left_mono[OF c(2) d(1)] by simp
    moreover have "d \<le> 2 * T - 2 * g" using d(2) by (simp add: algebra_simps)
    ultimately have "2 * p \<le> T - g" by linarith
    then have dc2: "2 * (d * c) \<le> T - g" by (simp only: p_def)
    have "0 \<le> m" "m \<le> 2 * (d * c)"
      using binary64_sign(1)[OF dc] binary64_twice(1)[OF dc] by (simp_all add: m_def)
    then show ?thesis using dc2 True by (simp add: min_def max_def)
  next
    case False
    then have d: "d \<le> 0" "2 * (T - g) \<le> d"
      using binary64_sign(2)[of "T - g"] binary64_twice(2)[of "T - g"] by (simp_all add: d_def)
    have dc: "d * c \<le> 0" using d(1) c(1) by (simp add: mult_nonpos_nonneg)
    have h: "(- d) * c \<le> (- d) * (1 / 4)" using c(2) d(1) by (intro mult_left_mono) simp_all
    define p where "p = d * c"
    have "d / 4 \<le> p" unfolding p_def using h by simp
    moreover have "2 * T - 2 * g \<le> d" using d(2) by (simp add: algebra_simps)
    ultimately have "T - g \<le> 2 * p" by linarith
    then have dc2: "T - g \<le> 2 * (d * c)" by (simp only: p_def)
    have "m \<le> 0" "2 * (d * c) \<le> m"
      using binary64_sign(2)[OF dc] binary64_twice(2)[OF dc] by (simp_all add: m_def)
    then show ?thesis using dc2 False by (simp add: min_def max_def)
  qed
  then show "min g T \<le> g + binary64 (binary64 (T - g) * binary64 0.02)"
    and "g + binary64 (binary64 (T - g) * binary64 0.02) \<le> max g T"
    by (simp_all add: m_def d_def c_def)
qed

lemma step64_between:
  assumes "binary64 g = g" and "binary64 T = T"
  shows "min g T \<le> binary64 (g + binary64 (binary64 (T - g) * binary64 0.02))"
    and "binary64 (g + binary64 (binary64 (T - g) * binary64 0.02)) \<le> max g T"
proof -
  let ?x = "g + binary64 (binary64 (T - g) * binary64 0.02)"
  have m: "binary64 (min g T) = min g T" "binary64 (max g T) = max g T"
    using assms by (simp_all add: min_def max_def)
  have "binary64 (min g T) \<le> binary64 ?x"
    by (rule binary64_mono) (rule step64_real_between)
  then show "min g T \<le> binary64 ?x" by (simp only: m)
  have "binary64 ?x \<le> binary64 (max g T)"
    by (rule binary64_mono) (rule step64_real_between)
  then show "binary64 ?x \<le> max g T" by (simp only: m)
qed

lemma binary64_neg2 [simp]: "binary64 (- 2) = - 2"
  using binary64_minus[of 2] by simp

lemma binary64_neg_half [simp]: "binary64 (- (1 / 2)) = - (1 / 2)"
  using binary64_minus[of "1 / 2"] by simp

lemma binary64_range:
  assumes "- 2 \<le> x" and "x \<le> 2"
  shows "- 2 \<le> binary64 x" and "binary64 x \<le> 2"
  using binary64_mono[OF assms(1)] binary64_mono[OF assms(2)] by simp_all

lemma step64_range:
  assumes "- 2 \<le> g" "g \<le> 2" "- 2 \<le> T" "T \<le> 2"
  shows "- 2 \<le> binary64 (g + binary64 (binary64 (T - g) * binary64 0.02))"
    and "binary64 (g + binary64 (binary64 (T - g) * binary64 0.02)) \<le> 2"
proof -
  let ?x = "g + binary64 (binary64 (T - g) * binary64 0.02)"
  have "min g T \<le> ?x" "?x \<le> max g T" by (rule step64_real_between)+
  then have "- 2 \<le> ?x" "?x \<le> 2" using assms by linarith+
  then show "- 2 \<le> binary64 ?x" "binary64 ?x \<le> 2" by (rule binary64_range)+
qed

lemma target64_range:
  assumes "0 \<le> u" and "u < 1"
  shows "- 2 \<le> binary64 (binary64 (u - 0.5) * 4)" and "binary64 (binary64 (u - 0.5) * 4) \<le> 2"
proof -
  have "binary64 (- (1 / 2)) \<le> binary64 (u - 0.5)" "binary64 (u - 0.5) \<le> binary64 (1 / 2)"
    using assms by (intro binary64_mono; simp)+
  then have "- 2 \<le> binary64 (u - 0.5) * 4" "binary64 (u - 0.5) * 4 \<le> 2" by simp_all
  then show "- 2 \<le> binary64 (binary64 (u - 0.5) * 4)" "binary64 (binary64 (u - 0.5) * 4) \<le> 2"
    by (rule binary64_range)+
qed

lemma step64_error:
  assumes "- 2 \<le> g" "g \<le> 2" "- 2 \<le> T" "T \<le> 2"
  shows "\<bar>(binary64 (g + binary64 (binary64 (T - g) * binary64 0.02)) - g) - 0.02 * (T - g)\<bar>
           \<le> 1 / 2 ^ 51"
proof -
  define c :: real where "c = binary64 0.02"
  define d where "d = binary64 (T - g)"
  define m where "m = binary64 (d * c)"
  define G where "G = binary64 (g + m)"
  have cv: "c = 1 / 50 + 3 / 7205759403792793600" unfolding c_def binary64_0_02 by simp
  have c: "0 \<le> c" "c \<le> 1 / 40" by (simp_all add: cv)
  have "\<bar>T - g\<bar> \<le> 2 powr of_int 2" using assms by (simp add: abs_le_iff)
  then have "\<bar>d - (T - g)\<bar> \<le> 2 powr of_int (2 - 53)"
    unfolding d_def by (rule binary64_err_bound) simp
  then have e1: "\<bar>d - (T - g)\<bar> \<le> 1 / 2 ^ 51" by (simp add: powr_neg_numeral2)
  have "(1::real) / 2 ^ 51 \<le> 1" by simp
  then have "\<bar>d - (T - g)\<bar> \<le> 1" using e1 by linarith
  then have dabs: "\<bar>d\<bar> \<le> 5" using assms by linarith
  have "\<bar>d * c\<bar> = \<bar>d\<bar> * c" using c(1) by (simp add: abs_mult)
  also have "\<dots> \<le> 5 * (1 / 40)" using dabs c by (intro mult_mono) simp_all
  finally have "\<bar>d * c\<bar> \<le> 2 powr of_int (- 3)" by (simp add: powr_neg_numeral2)
  then have "\<bar>m - d * c\<bar> \<le> 2 powr of_int (- 3 - 53)"
    unfolding m_def by (rule binary64_err_bound) simp
  then have e2: "\<bar>m - d * c\<bar> \<le> 1 / 2 ^ 56" by (simp add: powr_neg_numeral2)
  have "min g T \<le> g + m" "g + m \<le> max g T"
    unfolding m_def d_def c_def by (rule step64_real_between)+
  then have "\<bar>g + m\<bar> \<le> 2 powr of_int 1" using assms by (simp add: abs_le_iff min_def max_def split: if_splits)
  then have "\<bar>G - (g + m)\<bar> \<le> 2 powr of_int (1 - 53)"
    unfolding G_def by (rule binary64_err_bound) simp
  then have e3: "\<bar>G - (g + m)\<bar> \<le> 1 / 2 ^ 52" by (simp add: powr_neg_numeral2)
  have "\<bar>(d - (T - g)) * c\<bar> = \<bar>d - (T - g)\<bar> * c" using c(1) by (simp add: abs_mult)
  also have "\<dots> \<le> (1 / 2 ^ 51) * (1 / 40)" using e1 c by (intro mult_mono) simp_all
  finally have e4: "\<bar>(d - (T - g)) * c\<bar> \<le> (1 / 2 ^ 51) * (1 / 40)" .
  have cd: "c - 1 / 50 = 3 / 7205759403792793600" by (simp add: cv)
  have "\<bar>(T - g) * (c - 1 / 50)\<bar> = \<bar>T - g\<bar> * \<bar>c - 1 / 50\<bar>" by (rule abs_mult)
  also have "\<dots> = \<bar>T - g\<bar> * (3 / 7205759403792793600)" by (simp only: cd)
  also have "\<dots> \<le> 4 * (3 / 7205759403792793600)"
    using assms by (intro mult_right_mono) (simp_all add: abs_le_iff)
  finally have e5: "\<bar>(T - g) * (c - 1 / 50)\<bar> \<le> 4 * (3 / 7205759403792793600)" .
  have split: "(G - g) - 0.02 * (T - g)
      = (G - (g + m)) + (m - d * c) + (d - (T - g)) * c + (T - g) * (c - 1 / 50)"
    by (simp add: algebra_simps)
  have "\<bar>(G - g) - 0.02 * (T - g)\<bar>
      \<le> \<bar>G - (g + m)\<bar> + \<bar>m - d * c\<bar> + \<bar>(d - (T - g)) * c\<bar> + \<bar>(T - g) * (c - 1 / 50)\<bar>"
    unfolding split by linarith
  also have "\<dots> \<le> 1 / 2 ^ 52 + 1 / 2 ^ 56 + (1 / 2 ^ 51) * (1 / 40) + 4 * (3 / 7205759403792793600)"
    using e2 e3 e4 e5 by linarith
  also have "\<dots> \<le> 1 / 2 ^ 51" by simp
  finally show ?thesis by (simp add: G_def m_def d_def c_def)
qed

lemma binary64_fiftieth: "binary64 (1 / 50) = 5764607523034235 / 288230376151711744"
  using binary64_0_02 by simp

subsection \<open>Wind\<close>

lemma animate_idle:
  "isPaused s \<or> canvas s = None \<Longrightarrow> animate h r t s = s"
  by (auto simp: animate_def)

lemma animate_wind:
  assumes "\<not> isPaused s" and "canvas s = Some c"
  shows "windGustTarget (animate h r t s) =
           (if binary64 (t - lastGustTime s) > binary64 (5000 + binary64 (r 0 * 10000))
            then binary64 (binary64 (r 1 - 0.5) * 4) else windGustTarget s)"
    and "windGust (animate h r t s) =
           binary64 (windGust s
             + binary64 (binary64 (windGustTarget (animate h r t s) - windGust s) * binary64 0.02))"
  using assms
  by (simp_all add: animate_def Let_def spawnSpecialParticle_def split: prod.splits)

lemma wind_createParticles:
  "wind_in_range (after (createParticles h r s)) = wind_in_range s"
  "wind_binary64 (after (createParticles h r s)) = wind_binary64 s"
proof -
  obtain ps sps where "after (createParticles h r s) = s\<lparr>particles := ps, specialParticles := sps\<rparr>"
    using createParticles_after by blast
  then show "wind_in_range (after (createParticles h r s)) = wind_in_range s"
    "wind_binary64 (after (createParticles h r s)) = wind_binary64 s"
    by (simp_all add: wind_in_range_def wind_binary64_def)
qed

lemma wind_animate:
  assumes "wind_in_range s" and "Math_random_range r"
  shows "wind_in_range (animate h r t s)"
proof (cases "isPaused s \<or> canvas s = None")
  case True
  then show ?thesis using assms(1) by (simp add: animate_idle)
next
  case False
  then obtain c where run: "\<not> isPaused s" "canvas s = Some c" by auto
  let ?T = "windGustTarget (animate h r t s)"
  have r1: "0 \<le> r 1" "r 1 < 1" using assms(2) by (simp_all add: Math_random_range_def)
  have g: "- 2 \<le> windGust s" "windGust s \<le> 2" "- 2 \<le> windGustTarget s" "windGustTarget s \<le> 2"
    using assms(1) by (simp_all add: wind_in_range_def)
  have T: "- 2 \<le> ?T" "?T \<le> 2"
    using animate_wind(1)[OF run, of h r t] g(3,4) target64_range[OF r1]
    by (simp_all split: if_splits)
  have "- 2 \<le> windGust (animate h r t s)" "windGust (animate h r t s) \<le> 2"
    unfolding animate_wind(2)[OF run, of h r t] using g(1,2) T by (rule step64_range)+
  with T show ?thesis by (simp add: wind_in_range_def)
qed

lemma wind_binary64_animate:
  assumes "wind_binary64 s"
  shows "wind_binary64 (animate h r t s)"
proof (cases "isPaused s \<or> canvas s = None")
  case True
  then show ?thesis using assms by (simp add: animate_idle)
next
  case False
  then obtain c where run: "\<not> isPaused s" "canvas s = Some c" by auto
  have "binary64 (windGustTarget (animate h r t s)) = windGustTarget (animate h r t s)"
    using animate_wind(1)[OF run, of h r t] assms
    by (simp add: wind_binary64_def binary64_idem)
  moreover have "binary64 (windGust (animate h r t s)) = windGust (animate h r t s)"
    unfolding animate_wind(2)[OF run, of h r t] by (rule binary64_idem)
  ultimately show ?thesis by (simp add: wind_binary64_def)
qed

lemma reachable_wind: "reachable s \<Longrightarrow> wind_in_range s \<and> wind_binary64 s"
proof (induction rule: reachable.induct)
  case (r_constructor opts)
  then show ?case by (simp add: wind_in_range_def wind_binary64_def constructor_def)
next
  case (r_init s r h)
  then show ?case
    by (simp add: init_def wind_createParticles)
       (simp add: after_def wind_in_range_def wind_binary64_def createCanvas_def resizeCanvas_def)
next
  case (r_start s h)
  then show ?case by (simp add: start_def wind_in_range_def wind_binary64_def)
next
  case (r_pause s)
  then show ?case by (simp add: pause_def wind_in_range_def wind_binary64_def Let_def)
next
  case (r_stop s)
  then show ?case
    by (simp add: stop_def cleanup_def pause_def wind_in_range_def wind_binary64_def Let_def)
next
  case (r_setIntensity s r h level)
  then show ?case
    by (simp add: setIntensity_def wind_createParticles)
       (simp add: after_def wind_in_range_def wind_binary64_def)
next
  case (r_animate s r h t)
  then show ?case by (simp add: wind_animate wind_binary64_animate)
next
  case (r_handleVisibility s h)
  then show ?case
    by (simp add: handleVisibility_def start_def pause_def wind_in_range_def wind_binary64_def
          Let_def)
next
  case (r_handleResize s h)
  then show ?case by (simp add: handleResize_def wind_in_range_def wind_binary64_def)
next
  case (r_resizeTimerFired s r h)
  then show ?case
    by (simp add: resizeTimerFired_def wind_createParticles)
       (simp add: after_def wind_in_range_def wind_binary64_def resizeCanvas_def)
qed

text \<open>
  The first frame of a controller that was initialized and started at time 0, delivered
  at 20000 ms with every random number 3/4: the target is re-rolled to 1 and the gust
  moves from 0 to the binary64 value nearest 0.02.
\<close>

lemma started_example:
  "reachable (start desktop (after (init desktop half (constructor no_options))))"
  "\<not> isPaused (start desktop (after (init desktop half (constructor no_options))))"
  "canvas (start desktop (after (init desktop half (constructor no_options))))
     = Some \<lparr>width = 1280, height = 720\<rparr>"
  "lastGustTime (start desktop (after (init desktop half (constructor no_options)))) = 0"
  "windGust (start desktop (after (init desktop half (constructor no_options)))) = 0"
  "windGustTarget (start desktop (after (init desktop half (constructor no_options)))) = 0"
proof -
  obtain ps sps where a: "after (init desktop half (constructor no_options))
      = (createCanvas desktop (constructor no_options))\<lparr>particles := ps, specialParticles := sps\<rparr>"
    using after_init_constructor by blast
  show "reachable (start desktop (after (init desktop half (constructor no_options))))"
    by (intro r_start r_init r_constructor half_range)
  show "\<not> isPaused (start desktop (after (init desktop half (constructor no_options))))"
    "canvas (start desktop (after (init desktop half (constructor no_options))))
       = Some \<lparr>width = 1280, height = 720\<rparr>"
    "lastGustTime (start desktop (after (init desktop half (constructor no_options)))) = 0"
    "windGust (start desktop (after (init desktop half (constructor no_options)))) = 0"
    "windGustTarget (start desktop (after (init desktop half (constructor no_options)))) = 0"
    unfolding a
    by (simp_all add: start_def createCanvas_def resizeCanvas_def constructor_def truthy_def
          desktop_def)
qed

lemma first_frame:
  "windGustTarget (animate desktop three_quarters 20000
      (start desktop (after (init desktop half (constructor no_options))))) = 1"
  "windGust (animate desktop three_quarters 20000
      (start desktop (after (init desktop half (constructor no_options)))))
     = 5764607523034235 / 288230376151711744"
proof -
  let ?s = "start desktop (after (init desktop half (constructor no_options)))"
  show T: "windGustTarget (animate desktop three_quarters 20000 ?s) = 1"
    using animate_wind(1)[OF started_example(2,3), of desktop three_quarters 20000]
    by (simp add: started_example(4,6) three_quarters_def binary64_7500 binary64_12500
          binary64_20000 binary64_quarter)
  show "windGust (animate desktop three_quarters 20000 ?s) = 5764607523034235 / 288230376151711744"
    unfolding animate_wind(2)[OF started_example(2,3), of desktop three_quarters 20000] T
    by (simp add: started_example(5) binary64_fiftieth binary64_c)
qed

lemma animate_fields:
  assumes "\<not> isPaused s" and "canvas s = Some c"
  shows "\<not> isPaused (animate h r t s)"
    and "canvas (animate h r t s) = Some c"
    and "lastGustTime (animate h r t s) =
           (if binary64 (t - lastGustTime s) > binary64 (5000 + binary64 (r 0 * 10000))
            then t else lastGustTime s)"
  using assms
  by (simp_all add: animate_def Let_def spawnSpecialParticle_def split: prod.splits)

lemma after_frame1:
  "reachable after_frame1" "\<not> isPaused after_frame1"
  "canvas after_frame1 = Some \<lparr>width = 1280, height = 720\<rparr>"
  "lastGustTime after_frame1 = 20000" "windGustTarget after_frame1 = 1"
  "windGust after_frame1 = gust1"
proof -
  show "reachable after_frame1"
    unfolding after_frame1_def started_def
    by (intro r_animate started_example(1) three_quarters_range)
  show "\<not> isPaused after_frame1" "canvas after_frame1 = Some \<lparr>width = 1280, height = 720\<rparr>"
    unfolding after_frame1_def started_def
    by (rule animate_fields[OF started_example(2,3)])+
  show "lastGustTime after_frame1 = 20000"
    unfolding after_frame1_def started_def
    using animate_fields(3)[OF started_example(2,3), of desktop three_quarters 20000]
    by (simp add: started_example(4) three_quarters_def binary64_7500 binary64_12500
          binary64_20000)
  show "windGustTarget after_frame1 = 1" "windGust after_frame1 = gust1"
    unfolding after_frame1_def started_def gust1_def by (rule first_frame)+
qed

lemma after_frame2:
  "reachable after_frame2" "\<not> isPaused after_frame2"
  "canvas after_frame2 = Some \<lparr>width = 1280, height = 720\<rparr>"
  "lastGustTime after_frame2 = 20000" "windGustTarget after_frame2 = 1"
  "windGust after_frame2 = gust2"
proof -
  have no: "\<not> binary64 (20016 - lastGustTime after_frame1)
             > binary64 (5000 + binary64 (three_quarters 0 * 10000))"
    by (simp add: after_frame1(4) three_quarters_def binary64_7500 binary64_12500 binary64_16)
  show "reachable after_frame2"
    unfolding after_frame2_def by (intro r_animate after_frame1(1) three_quarters_range)
  show "\<not> isPaused after_frame2" "canvas after_frame2 = Some \<lparr>width = 1280, height = 720\<rparr>"
    unfolding after_frame2_def by (rule animate_fields[OF after_frame1(2,3)])+
  show "lastGustTime after_frame2 = 20000"
    unfolding after_frame2_def
    using animate_fields(3)[OF after_frame1(2,3), of desktop three_quarters 20016] no
    by (simp add: after_frame1(4))
  show T: "windGustTarget after_frame2 = 1"
    unfolding after_frame2_def
    using animate_wind(1)[OF after_frame1(2,3), of desktop three_quarters 20016] no
    by (simp add: after_frame1(5))
  have "windGust after_frame2
      = binary64 (gust1 + binary64 (binary64 (1 - gust1) * binary64 0.02))"
    using animate_wind(2)[OF after_frame1(2,3), of desktop three_quarters 20016] T
    unfolding after_frame2_def[symmetric] by (simp only: after_frame1(6))
  also have "binary64 0.02 = gust1" unfolding gust1_def by (rule binary64_0_02)
  finally show "windGust after_frame2 = gust2"
    by (simp only: frame2_d frame2_m frame2_g)
qed

lemma third_frame:
  "windGustTarget (animate desktop three_quarters 20032 after_frame2) = 1"
  "windGust (animate desktop three_quarters 20032 after_frame2) = gust3"
proof -
  have no: "\<not> binary64 (20032 - lastGustTime after_frame2)
             > binary64 (5000 + binary64 (three_quarters 0 * 10000))"
    by (simp add: after_frame2(4) three_quarters_def binary64_7500 binary64_12500 binary64_32)
  show T: "windGustTarget (animate desktop three_quarters 20032 after_frame2) = 1"
    using animate_wind(1)[OF after_frame2(2,3), of desktop three_quarters 20032] no
    by (simp add: after_frame2(5))
  have "windGust (animate desktop three_quarters 20032 after_frame2)
      = binary64 (gust2 + binary64 (binary64 (1 - gust2) * binary64 0.02))"
    using animate_wind(2)[OF after_frame2(2,3), of desktop three_quarters 20032] T
    by (simp only: after_frame2(6))
  also have "binary64 0.02 = gust1" unfolding gust1_def by (rule binary64_0_02)
  finally show "windGust (animate desktop three_quarters 20032 after_frame2) = gust3"
    by (simp only: frame3_d frame3_m frame3_g)
qed

lemma binary64_step3: "binary64 \<bar>gust3 - gust2\<bar> = 5536329065122080 / 288230376151711744"
proof -
  have v: "\<bar>gust3 - gust2\<bar> = 5536329065122080 / 288230376151711744"
    by (simp add: gust3_def gust2_def)
  have "binary64 (5536329065122080 / 288230376151711744) = 5536329065122080 / 288230376151711744"
    by (rule binary64_exact[where e = "- 6" and k = "5536329065122080"])
       (simp_all add: powr_neg_numeral2)
  then show ?thesis by (simp only: v)
qed

lemma binary64_bound3:
  "binary64 (binary64 0.02 * binary64 \<bar>1 - gust2\<bar>) = 5536329065122079 / 288230376151711744"
proof -
  have a: "\<bar>1 - gust2\<bar> = 1 - gust2" by (simp add: gust2_def)
  have c: "binary64 0.02 = gust1" unfolding gust1_def by (rule binary64_0_02)
  have "binary64 (binary64 0.02 * binary64 \<bar>1 - gust2\<bar>)
      = binary64 (8650514164253249 / 9007199254740992 * gust1)"
    by (simp only: a c frame3_d mult.commute)
  then show ?thesis by (simp only: frame3_m)
qed

text \<open>
  Claim C8 says that the gust never changes by more than 0.02 times its distance to the
  target.  The source computes in binary64.  In the example the first frame re-rolls the
  target to 1, and on the third frame the gust goes from \<open>gust2\<close> to \<open>gust3\<close>: a change of
  5536329065122080 / 2^58, while 0.02 times the distance to the target is about
  5536329065122079.2 / 2^58.  The comparison fails as well when both of its sides are
  computed in binary64.
\<close>

theorem C8_rounding_counterexample:
  "reachable after_frame2
   \<and> windGust after_frame2 = gust2
   \<and> windGustTarget (animate desktop three_quarters 20032 after_frame2) = 1
   \<and> windGust (animate desktop three_quarters 20032 after_frame2) = gust3
   \<and> \<not> \<bar>windGust (animate desktop three_quarters 20032 after_frame2) - windGust after_frame2\<bar>
       \<le> 0.02 * \<bar>windGustTarget (animate desktop three_quarters 20032 after_frame2)
                  - windGust after_frame2\<bar>
   \<and> \<not> binary64 \<bar>windGust (animate desktop three_quarters 20032 after_frame2)
                    - windGust after_frame2\<bar>
       \<le> binary64 (binary64 0.02
             * binary64 \<bar>windGustTarget (animate desktop three_quarters 20032 after_frame2)
                          - windGust after_frame2\<bar>)"
proof -
  have "\<not> \<bar>gust3 - gust2\<bar> \<le> 0.02 * \<bar>1 - gust2\<bar>"
    by (simp add: gust3_def gust2_def)
  moreover have "\<not> binary64 \<bar>gust3 - gust2\<bar> \<le> binary64 (binary64 0.02 * binary64 \<bar>1 - gust2\<bar>)"
    by (simp only: binary64_step3 binary64_bound3)
  ultimately show ?thesis
    by (simp only: after_frame2(1,6) third_frame) simp
qed

text \<open>
  Claim C8, amended: gust and target of the state are binary64 values in [-2, 2] (as in
  every reachable state).  A frame that passes the guard sets the gust to the binary64
  result of \<open>gust + (target - gust) * 0.02\<close>, with the target in force during that frame
  (the one after a possible re-roll); a frame that returns at the guard leaves it alone.
  The new gust lies between the old gust and the target, so it never passes the target
  and never moves away from it, and its distance to the target does not grow.  The change
  of the gust differs from 0.02 * (target - gust) by at most 2^-51 in a frame that passes
  the guard, and in every frame it is at most 0.02 * |target - gust| + 2^-51.
\<close>

theorem C8_gust_easing:
  assumes "binary64 (windGust s) = windGust s"
    and "binary64 (windGustTarget s) = windGustTarget s"
    and "\<bar>windGust s\<bar> \<le> 2" and "\<bar>windGustTarget s\<bar> \<le> 2"
    and "Math_random_range r"
  shows "windGust (animate h r t s) =
           (if isPaused s \<or> canvas s = None then windGust s
            else binary64 (windGust s
                   + binary64 (binary64 (windGustTarget (animate h r t s) - windGust s)
                       * binary64 0.02)))
       \<and> windGustTarget (animate h r t s) =
           (if \<not> isPaused s \<and> canvas s \<noteq> None
                \<and> binary64 (t - lastGustTime s) > binary64 (5000 + binary64 (r 0 * 10000))
            then binary64 (binary64 (r 1 - 0.5) * 4) else windGustTarget s)
       \<and> min (windGust s) (windGustTarget (animate h r t s)) \<le> windGust (animate h r t s)
       \<and> windGust (animate h r t s) \<le> max (windGust s) (windGustTarget (animate h r t s))
       \<and> \<bar>windGustTarget (animate h r t s) - windGust (animate h r t s)\<bar>
           \<le> \<bar>windGustTarget (animate h r t s) - windGust s\<bar>
       \<and> (\<not> isPaused s \<and> canvas s \<noteq> None \<longrightarrow>
            \<bar>(windGust (animate h r t s) - windGust s)
               - 0.02 * (windGustTarget (animate h r t s) - windGust s)\<bar> \<le> 1 / 2 ^ 51)
       \<and> \<bar>windGust (animate h r t s) - windGust s\<bar>
           \<le> 0.02 * \<bar>windGustTarget (animate h r t s) - windGust s\<bar> + 1 / 2 ^ 51"
proof (cases "isPaused s \<or> canvas s = None")
  case True
  then have "animate h r t s = s" by (rule animate_idle)
  then show ?thesis using True by auto
next
  case False
  then obtain c where run: "\<not> isPaused s" "canvas s = Some c" by auto
  define g where "g = windGust s"
  define T where "T = windGustTarget (animate h r t s)"
  define G where "G = windGust (animate h r t s)"
  have r1: "0 \<le> r 1" "r 1 < 1" using assms(5) by (simp_all add: Math_random_range_def)
  have gr: "- 2 \<le> g" "g \<le> 2" using assms(3) by (simp_all add: g_def abs_le_iff)
  have Tval: "T = (if binary64 (t - lastGustTime s) > binary64 (5000 + binary64 (r 0 * 10000))
            then binary64 (binary64 (r 1 - 0.5) * 4) else windGustTarget s)"
    unfolding T_def by (rule animate_wind(1)[OF run])
  have Tr: "- 2 \<le> T" "T \<le> 2"
    using Tval assms(4) target64_range[OF r1] by (simp_all add: abs_le_iff split: if_splits)
  have Td: "binary64 T = T"
    using Tval assms(2) by (simp add: binary64_idem split: if_splits)
  have Gval: "G = binary64 (g + binary64 (binary64 (T - g) * binary64 0.02))"
    unfolding G_def T_def g_def by (rule animate_wind(2)[OF run])
  have gd: "binary64 g = g" using assms(1) by (simp add: g_def)
  have btw: "min g T \<le> G" "G \<le> max g T"
    unfolding Gval using gd Td by (rule step64_between)+
  have err: "\<bar>(G - g) - 0.02 * (T - g)\<bar> \<le> 1 / 2 ^ 51"
    unfolding Gval using gr Tr by (rule step64_error)
  have dist: "\<bar>T - G\<bar> \<le> \<bar>T - g\<bar>" using btw by linarith
  have "\<bar>G - g\<bar> \<le> \<bar>0.02 * (T - g)\<bar> + \<bar>(G - g) - 0.02 * (T - g)\<bar>" by linarith
  also have "\<bar>0.02 * (T - g)\<bar> = 0.02 * \<bar>T - g\<bar>" by (simp add: abs_mult)
  finally have slack: "\<bar>G - g\<bar> \<le> 0.02 * \<bar>T - g\<bar> + 1 / 2 ^ 51" using err by linarith
  have "G = (if isPaused s \<or> canvas s = None then g
             else binary64 (g + binary64 (binary64 (T - g) * binary64 0.02)))"
    using run Gval by simp
  moreover have "T = (if \<not> isPaused s \<and> canvas s \<noteq> None
                \<and> binary64 (t - lastGustTime s) > binary64 (5000 + binary64 (r 0 * 10000))
            then binary64 (binary64 (r 1 - 0.5) * 4) else windGustTarget s)"
    using run Tval by simp
  ultimately show ?thesis
    using btw dist err slack unfolding g_def T_def G_def by blast
qed

theorem C8_gust_easing_witness:
  "binary64 (windGust (start desktop (after (init desktop half (constructor no_options)))))
     = windGust (start desktop (after (init desktop half (constructor no_options))))
   \<and> binary64 (windGustTarget (start desktop (after (init desktop half (constructor no_options)))))
     = windGustTarget (start desktop (after (init desktop half (constructor no_options))))
   \<and> \<bar>windGust (start desktop (after (init desktop half (constructor no_options))))\<bar> \<le> 2
   \<and> \<bar>windGustTarget (start desktop (after (init desktop half (constructor no_options))))\<bar> \<le> 2
   \<and> Math_random_range three_quarters
   \<and> windGust (animate desktop three_quarters 20000
        (start desktop (after (init desktop half (constructor no_options)))))
       = 5764607523034235 / 288230376151711744
   \<and> \<bar>5764607523034235 / 288230376151711744 - 0.02 * (1 - 0)\<bar> \<le> (1 / 2 ^ 51 :: real)"
proof -
  let ?s = "start desktop (after (init desktop half (constructor no_options)))"
  have a: "binary64 (windGust ?s) = windGust ?s" "binary64 (windGustTarget ?s) = windGustTarget ?s"
    "\<bar>windGust ?s\<bar> \<le> 2" "\<bar>windGustTarget ?s\<bar> \<le> 2"
    by (simp_all add: started_example(5,6))
  from C8_gust_easing [OF a three_quarters_range, of desktop 20000]
  show ?thesis using a three_quarters_range
    by (simp add: started_example first_frame)
qed

text \<open>
  Claim C10: in every reachable state of the controller the current gust lies in [-2, 2].
\<close>

theorem C10_gust_in_range:
  assumes "reachable s"
  shows "- 2 \<le> windGust s \<and> windGust s \<le> 2"
  using reachable_wind[OF assms] by (simp add: wind_in_range_def)

theorem C10_gust_in_range_witness:
  "reachable (animate desktop three_quarters 20000
               (start desktop (after (init desktop half (constructor no_options)))))
   \<and> windGust (animate desktop three_quarters 20000
               (start desktop (after (init desktop half (constructor no_options)))))
       = 5764607523034235 / 288230376151711744
   \<and> - 2 \<le> windGust (animate desktop three_quarters 20000
               (start desktop (after (init desktop half (constructor no_options)))))
   \<and> windGust (animate desktop three_quarters 20000
               (start desktop (after (init desktop half (constructor no_options))))) \<le> 2"
proof -
  have "reachable (animate desktop three_quarters 20000
               (start desktop (after (init desktop half (constructor no_options)))))"
    by (intro r_animate r_start r_init r_constructor half_range three_quarters_range)
  then show ?thesis
    using C10_gust_in_range [of "animate desktop three_quarters 20000
               (start desktop (after (init desktop half (constructor no_options))))"]
      first_frame(2)
    by simp
qed

subsection \<open>Snow on static decorations (second variant)\<close>

lemma created_snow_ok:
  assumes "createStaticTree2 cv r = Inr (p, r') \<or> createStaticWreath2 cv r = Inr (p, r')"
    and "Math_random_range r"
  shows "snow_ok p \<and> s_snowLevel p = 0"
proof -
  have r: "0 \<le> r 2" "0 \<le> r 42" using assms(2) by (simp_all add: Math_random_range_def)
  from assms(1) show ?thesis
  proof
    assume "createStaticTree2 cv r = Inr (p, r')"
    then show ?thesis using r(1)
      by (auto simp: createStaticTree2_def snow_ok_def split: option.splits)
  next
    assume "createStaticWreath2 cv r = Inr (p, r')"
    then show ?thesis using r(2)
      by (auto simp: createStaticWreath2_def snow_ok_def drop_rand_def Let_def split: option.splits)
  qed
qed

lemma update2_static:
  assumes "snow_ok p" and "Math_random_range r"
  shows "snow_ok (fst (updateSpecialParticle2 c deltaTime p r))"
    and "s_size (fst (updateSpecialParticle2 c deltaTime p r)) = s_size p"
    and "s_snowLevel p \<le> s_snowLevel (fst (updateSpecialParticle2 c deltaTime p r))"
proof -
  let ?new = "min (s_snowLevel p + r 1 * 0.2) (s_size p * 0.3)"
  have st: "s_static p" and ac: "s_active p" and le: "s_snowLevel p \<le> s_size p * 0.3"
    using assms(1) by (simp_all add: snow_ok_def)
  have r1: "0 \<le> r 1" using assms(2) by (simp add: Math_random_range_def)
  have upd: "fst (updateSpecialParticle2 c deltaTime p r)
      = (if r 0 < 0.0005 then p\<lparr>s_snowLevel := ?new\<rparr> else p)"
    using st by (simp add: updateSpecialParticle2_def Let_def)
  have cap: "?new \<le> s_size p * 0.3" by (rule min.cobounded2)
  have "s_snowLevel p \<le> s_snowLevel p + r 1 * 0.2" using r1 by simp
  then have low: "s_snowLevel p \<le> ?new" using le by (rule min.boundedI)
  show "snow_ok (fst (updateSpecialParticle2 c deltaTime p r))"
    unfolding upd snow_ok_def using st ac le cap by simp
  show "s_size (fst (updateSpecialParticle2 c deltaTime p r)) = s_size p"
    unfolding upd by simp
  show "s_snowLevel p \<le> s_snowLevel (fst (updateSpecialParticle2 c deltaTime p r))"
    unfolding upd using low by simp
qed

lemma frames2_snow:
  assumes "snow_ok p" and "\<forall>(deltaTime, r)\<in>set fs. Math_random_range r"
  shows "sorted (map s_snowLevel (p # frames2 c p fs))
       \<and> (\<forall>q\<in>set (p # frames2 c p fs).
            s_active q \<and> s_size q = s_size p \<and> s_snowLevel q \<le> s_size p * 0.3)"
  using assms
proof (induction fs arbitrary: p)
  case Nil
  then show ?case by (simp add: snow_ok_def)
next
  case (Cons f fs)
  obtain deltaTime r where f: "f = (deltaTime, r)" by (cases f)
  let ?p = "fst (updateSpecialParticle2 c deltaTime p r)"
  have r: "Math_random_range r" and rs: "\<forall>(deltaTime, r)\<in>set fs. Math_random_range r"
    using Cons.prems(2) f by auto
  note step = update2_static[OF Cons.prems(1) r, of c deltaTime]
  from Cons.IH[OF step(1) rs]
  have ih: "sorted (map s_snowLevel (?p # frames2 c ?p fs))"
    "\<forall>q\<in>set (?p # frames2 c ?p fs).
       s_active q \<and> s_size q = s_size ?p \<and> s_snowLevel q \<le> s_size ?p * 0.3"
    by simp_all
  have fr: "frames2 c p (f # fs) = ?p # frames2 c ?p fs"
    by (simp add: f Let_def)
  have "sorted (map s_snowLevel (p # ?p # frames2 c ?p fs))"
    using ih(1) step(3) by (auto intro: order_trans)
  moreover have "\<forall>q\<in>set (p # ?p # frames2 c ?p fs).
      s_active q \<and> s_size q = s_size p \<and> s_snowLevel q \<le> s_size p * 0.3"
    using ih(2) step(2) Cons.prems(1) by (simp add: snow_ok_def)
  ultimately show ?case by (simp only: fr) 
qed

text \<open>
  Claim C9: a tree or wreath made by the variant's factory starts with snow level 0, and
  over any finite sequence of frames its snow levels are non-decreasing and never exceed
  size * 0.3; its size never changes and it stays active.
\<close>

theorem C9_snow_level:
  assumes "createStaticTree2 cv r0 = Inr (p, r1) \<or> createStaticWreath2 cv r0 = Inr (p, r1)"
    and "Math_random_range r0"
    and "\<forall>(deltaTime, r)\<in>set fs. Math_random_range r"
  shows "s_snowLevel p = 0
       \<and> sorted (map s_snowLevel (p # frames2 c p fs))
       \<and> (\<forall>q\<in>set (p # frames2 c p fs).
            s_active q \<and> s_size q = s_size p \<and> s_snowLevel q \<le> s_size p * 0.3)"
  using created_snow_ok[OF assms(1,2)] frames2_snow[OF _ assms(3), of p c] by blast

theorem C9_snow_level_witness:
  "createStaticTree2 (Some viewport) half = Inr (example_tree, drop_rand 4 half)
   \<and> Math_random_range half \<and> Math_random_range snowing
   \<and> map s_snowLevel (example_tree # frames2 viewport example_tree [(50 / 3, half), (50 / 3, snowing)])
       = [0, 0, 1 / 10]
   \<and> sorted (map s_snowLevel
        (example_tree # frames2 viewport example_tree [(50 / 3, half), (50 / 3, snowing)]))"
proof -
  have a: "createStaticTree2 (Some viewport) half = Inr (example_tree, drop_rand 4 half)"
    by (simp add: createStaticTree2_def example_tree_def viewport_def half_def)
  have b: "Math_random_range half" "Math_random_range snowing"
    by (simp_all add: Math_random_range_def half_def snowing_def)
  have c: "\<forall>(deltaTime, r)\<in>set [(50 / 3, half), (50 / 3, snowing)]. Math_random_range r"
    using b by simp
  have d: "map s_snowLevel (example_tree # frames2 viewport example_tree [(50 / 3, half), (50 / 3, snowing)])
       = [0, 0, 1 / 10]"
    by (simp add: updateSpecialParticle2_def example_tree_def half_def snowing_def Let_def)
  from C9_snow_level [OF disjI1 [OF a] b(1) c, of viewport]
  show ?thesis using a b d by simp
qed

end
